theory Spec2Isabelle
  imports Main
begin

section \<open>shared/schema.ts: the user record\<close>

text \<open>
  \<^verbatim>\<open>InsertUser\<close> is the row type of the \<^verbatim>\<open>users\<close> table without its \<^verbatim>\<open>id\<close>;
  \<^verbatim>\<open>User\<close> is the full row. Text columns are strings, nullable or optional columns are
  options, the two integer columns (\<^verbatim>\<open>token_expiry\<close>, \<^verbatim>\<open>followers\<close>) are integers, and
  the serial \<^verbatim>\<open>id\<close> is a natural number (a JavaScript number holds every integer below
  \<open>2 ^ 53\<close> exactly, and the counter of the in-memory store starts at 1).
\<close>

record InsertUser =
  spotifyId :: string
  displayName :: string
  email :: "string option"
  accessToken :: string
  refreshToken :: string
  tokenExpiry :: int
  profileImage :: "string option"
  followers :: "int option"

record User = InsertUser +
  user_id :: nat

section \<open>server/storage.ts: MemStorage\<close>

text \<open>
  The class holds two \<^verbatim>\<open>Map\<close>s and a counter. Every method is modelled as a function
  from the state before the call to the state after it and the value the promise
  resolves to; \<^verbatim>\<open>undefined\<close> is \<open>None\<close>.
\<close>

record MemStorage =
  users :: "nat \<rightharpoonup> User"
  spotifyIdToUserId :: "string \<rightharpoonup> nat"
  currentId :: nat

definition MemStorage_new :: MemStorage where
  "MemStorage_new = \<lparr>users = Map.empty, spotifyIdToUserId = Map.empty, currentId = 1\<rparr>"

definition getUser :: "MemStorage \<Rightarrow> nat \<Rightarrow> User option" where
  "getUser s i = users s i"

text \<open>\<^verbatim>\<open>if (!userId) return undefined\<close>: an absent entry and the number 0 are both falsy.\<close>

definition getUserBySpotifyId :: "MemStorage \<Rightarrow> string \<Rightarrow> User option" where
  "getUserBySpotifyId s sid =
     (case spotifyIdToUserId s sid of
        None \<Rightarrow> None
      | Some userId \<Rightarrow> if userId = 0 then None else users s userId)"

text \<open>\<^verbatim>\<open>{ ...insertUser, id }\<close>: every field of the draft, and the id read from the counter
  before its increment.\<close>

definition createUser :: "MemStorage \<Rightarrow> InsertUser \<Rightarrow> MemStorage \<times> User" where
  "createUser s insertUser =
     (let i = currentId s;
          user = InsertUser.extend insertUser (User.fields i)
      in (s\<lparr>users := (users s)(i \<mapsto> user),
            spotifyIdToUserId := (spotifyIdToUserId s)(spotifyId insertUser \<mapsto> i),
            currentId := i + 1\<rparr>,
          user))"

definition updateUserToken ::
  "MemStorage \<Rightarrow> nat \<Rightarrow> string \<Rightarrow> string \<Rightarrow> int \<Rightarrow> MemStorage \<times> User option" where
  "updateUserToken s i accessToken' refreshToken' tokenExpiry' =
     (case users s i of
        None \<Rightarrow> (s, None)
      | Some user \<Rightarrow>
          (let updatedUser = user\<lparr>accessToken := accessToken',
                                  refreshToken := refreshToken',
                                  tokenExpiry := tokenExpiry'\<rparr>
           in (s\<lparr>users := (users s)(i \<mapsto> updatedUser)\<rparr>, Some updatedUser)))"

subsection \<open>Sequences of store operations\<close>

text \<open>
  The four methods of \<^verbatim>\<open>IStorage\<close> as a datatype of calls, \<open>apply_op\<close> dispatching one call,
  and \<open>run_ops\<close> running a sequence of calls on a store and logging every call with the
  value it returned.
\<close>

datatype store_op =
    GetUser nat
  | GetUserBySpotifyId string
  | CreateUser InsertUser
  | UpdateUserToken nat string string int

fun apply_op :: "MemStorage \<Rightarrow> store_op \<Rightarrow> MemStorage \<times> User option" where
  "apply_op s (GetUser i) = (s, getUser s i)"
| "apply_op s (GetUserBySpotifyId sid) = (s, getUserBySpotifyId s sid)"
| "apply_op s (CreateUser d) = (case createUser s d of (s', u) \<Rightarrow> (s', Some u))"
| "apply_op s (UpdateUserToken i a r e) = updateUserToken s i a r e"

fun run_ops :: "MemStorage \<Rightarrow> store_op list \<Rightarrow> MemStorage \<times> (store_op \<times> User option) list" where
  "run_ops s [] = (s, [])"
| "run_ops s (c # cs) =
     (case apply_op s c of
        (s', r) \<Rightarrow> (case run_ops s' cs of (s'', log) \<Rightarrow> (s'', (c, r) # log)))"

text \<open>The ids returned by the \<^verbatim>\<open>createUser\<close> calls of a log, in call order.\<close>

fun created_ids :: "(store_op \<times> User option) list \<Rightarrow> nat list" where
  "created_ids [] = []"
| "created_ids ((CreateUser d, Some u) # log) = user_id u # created_ids log"
| "created_ids (_ # log) = created_ids log"

text \<open>A state of the store is reachable when some sequence of calls leads to it from the
  freshly constructed store.\<close>

definition store_after :: "store_op list \<Rightarrow> MemStorage" where
  "store_after cs = fst (run_ops MemStorage_new cs)"

section \<open>server/routes.ts: values and helpers\<close>

subsection \<open>Strings\<close>

text \<open>
  Strings are lists of 8-bit code units; host names, domain names and the literals of the
  source are ASCII. \<open>is_white_space\<close> holds of the code units that \<^verbatim>\<open>String.prototype.trim\<close>
  and \<^verbatim>\<open>parseInt\<close> skip: tab, line feed, vertical tab, form feed, carriage return, space and
  the no-break space.
\<close>

definition is_white_space :: "char \<Rightarrow> bool" where
  "is_white_space c \<longleftrightarrow> (of_char c :: nat) \<in> {9, 10, 11, 12, 13, 32, 160}"

definition trim :: "string \<Rightarrow> string" where
  "trim s = rev (dropWhile is_white_space (rev (dropWhile is_white_space s)))"

text \<open>\<^verbatim>\<open>s.split(sep)\<close> for a one-character separator: the pieces between the separators,
  empty pieces included; the empty string splits into one empty piece.\<close>

fun split_str :: "char \<Rightarrow> string \<Rightarrow> string list" where
  "split_str sep [] = [] # []"
| "split_str sep (c # cs) =
     (if c = sep then [] # split_str sep cs
      else (case split_str sep cs of
              [] \<Rightarrow> [c] # []
            | w # ws \<Rightarrow> (c # w) # ws))"

text \<open>\<^verbatim>\<open>s.includes(t)\<close>: \<open>t\<close> occurs in \<open>s\<close> as a contiguous run.\<close>

fun str_includes :: "string \<Rightarrow> string \<Rightarrow> bool" where
  "str_includes [] t = (t = [])"
| "str_includes (c # cs) t = (take (length t) (c # cs) = t \<or> str_includes cs t)"

text \<open>A string that may be \<^verbatim>\<open>undefined\<close> is truthy when it is defined and not empty;
  \<open>truthy_string\<close> returns the string in that case.\<close>

definition truthy_string :: "string option \<Rightarrow> string option" where
  "truthy_string v = (case v of None \<Rightarrow> None | Some s \<Rightarrow> if s = [] then None else Some s)"

subsection \<open>Errors\<close>

text \<open>What a \<^verbatim>\<open>try\<close> block can throw: the \<^verbatim>\<open>ZodError\<close> of a failed \<^verbatim>\<open>parse\<close>, the error of
  a failed axios request, \<^verbatim>\<open>new Error(message)\<close>, and the \<^verbatim>\<open>TypeError\<close> of a value that
  cannot be converted to a string.\<close>

datatype error = ZodError | AxiosError string | Error string | TypeError

subsection \<open>Query values\<close>

text \<open>
  The values Express puts in \<^verbatim>\<open>req.query\<close>: a string, an array, or a nested object
  (its own keys and their values). Only the empty string is falsy. \<open>js_or v d\<close> is
  \<^verbatim>\<open>v || d\<close>.
\<close>

datatype qval = QStr string | QArr "qval list" | QObj "(string \<times> qval) list"

definition truthy_qval :: "qval option \<Rightarrow> qval option" where
  "truthy_qval v =
     (case v of
        None \<Rightarrow> None
      | Some (QStr s) \<Rightarrow> if s = [] then None else Some (QStr s)
      | Some x \<Rightarrow> Some x)"

definition js_or :: "qval option \<Rightarrow> qval \<Rightarrow> qval" where
  "js_or v d = (case truthy_qval v of None \<Rightarrow> d | Some x \<Rightarrow> x)"

text \<open>
  \<open>js_toString\<close> is the conversion of a query value to a string, as \<^verbatim>\<open>parseInt(v, 10)\<close>
  and \<^verbatim>\<open>v.toString()\<close> perform it. A string is itself. An array is its elements,
  converted from left to right and joined by commas. An object is \<^verbatim>\<open>[object Object]\<close>,
  unless it has a key \<^verbatim>\<open>toString\<close> of its own: the values of a parsed query are never
  functions, so that key hides \<^verbatim>\<open>Object.prototype.toString\<close> behind a value that cannot be
  called, and the conversion throws a \<^verbatim>\<open>TypeError\<close>. \<open>collect\<close> gathers the results of
  a list of conversions, or the first error thrown.
\<close>

fun join_comma :: "string list \<Rightarrow> string" where
  "join_comma [] = []"
| "join_comma [x] = x"
| "join_comma (x # y # ys) = x @ '','' @ join_comma (y # ys)"

fun collect :: "(error + 'a) list \<Rightarrow> error + 'a list" where
  "collect [] = Inr []"
| "collect (x # xs) =
     (case x of
        Inl err \<Rightarrow> Inl err
      | Inr v \<Rightarrow> (case collect xs of Inl err \<Rightarrow> Inl err | Inr vs \<Rightarrow> Inr (v # vs)))"

fun js_toString :: "qval \<Rightarrow> error + string" where
  "js_toString (QStr s) = Inr s"
| "js_toString (QArr xs) =
     (case collect (map js_toString xs) of
        Inl err \<Rightarrow> Inl err
      | Inr ss \<Rightarrow> Inr (join_comma ss))"
| "js_toString (QObj kvs) =
     (if ''toString'' \<in> fst ` set kvs then Inl TypeError else Inr ''[object Object]'')"

subsection \<open>Numbers\<close>

text \<open>
  The numbers \<^verbatim>\<open>parseInt\<close> returns: \<^verbatim>\<open>NaN\<close>, a finite integer with its sign (\<open>True\<close> is
  negative, so \<open>Finite True 0\<close> is \<^verbatim>\<open>-0\<close>), or an infinity with its sign. \<open>to_double m\<close> is
  the double nearest to the natural number \<open>m\<close>, ties going to the even significand:
  \<open>m\<close> itself below \<open>2 ^ 53\<close>, else \<open>m\<close> rounded to 53 significant bits, and \<open>None\<close>
  (infinity) when the rounded value reaches \<open>2 ^ 1024\<close>. \<open>bit_length m\<close> is the number of
  binary digits of \<open>m\<close>.
\<close>

datatype js_number = NaN | Finite bool nat | Infinite bool

fun bit_length :: "nat \<Rightarrow> nat" where
  "bit_length n = (if n = 0 then 0 else Suc (bit_length (n div 2)))"

declare bit_length.simps [simp del]

definition to_double :: "nat \<Rightarrow> nat option" where
  "to_double m =
     (if m < 2 ^ 53 then Some m
      else (let shift = bit_length m - 53;
                q = m div 2 ^ shift;
                r = m mod 2 ^ shift;
                half = 2 ^ (shift - 1);
                q' = (if half < r \<or> (r = half \<and> odd q) then q + 1 else q);
                v = q' * 2 ^ shift
            in if 2 ^ 1024 \<le> v then None else Some v))"

text \<open>
  \<^verbatim>\<open>parseInt(s, 10)\<close> on a string: leading white space is skipped, an optional sign is
  read, then the longest run of decimal digits; no digit gives \<^verbatim>\<open>NaN\<close>, and otherwise the
  result is the double nearest to the value of the digits, with the sign (the language
  lets an implementation read the digits after the twentieth as zeros; V8 rounds the
  exact value). \<open>parseInt_qval\<close> is
  \<^verbatim>\<open>parseInt(v, 10)\<close> on a query value, which is converted to a string first and throws
  when that conversion throws.
\<close>

definition is_digit :: "char \<Rightarrow> bool" where
  "is_digit c \<longleftrightarrow> 48 \<le> (of_char c :: nat) \<and> (of_char c :: nat) \<le> 57"

definition digits_value :: "string \<Rightarrow> nat" where
  "digits_value ds = foldl (\<lambda>acc c. 10 * acc + (of_char c - 48)) 0 ds"

definition parseInt10 :: "string \<Rightarrow> js_number" where
  "parseInt10 s =
     (let t = dropWhile is_white_space s;
          neg = (case t of [] \<Rightarrow> False | c # _ \<Rightarrow> c = CHR ''-'');
          r = (case t of [] \<Rightarrow> [] | c # cs \<Rightarrow> if c = CHR ''-'' \<or> c = CHR ''+'' then cs else t);
          ds = takeWhile is_digit r
      in if ds = [] then NaN
         else (case to_double (digits_value ds) of
                 None \<Rightarrow> Infinite neg
               | Some m \<Rightarrow> Finite neg m))"

definition parseInt_qval :: "qval \<Rightarrow> error + js_number" where
  "parseInt_qval v =
     (case js_toString v of Inl err \<Rightarrow> Inl err | Inr s \<Rightarrow> Inr (parseInt10 s))"

subsection \<open>Environment, session, request, response\<close>

record Env =
  SPOTIFY_CLIENT_ID :: "string option"
  SPOTIFY_CLIENT_SECRET :: "string option"
  REPLIT_DOMAINS :: "string option"
  NODE_ENV :: "string option"

text \<open>\<^verbatim>\<open>SessionData\<close>: three optional fields (the session's \<^verbatim>\<open>spotifyId\<close> is named
  \<open>session_spotifyId\<close> here, the user record having a field of that name).\<close>

record SessionData =
  userId :: "nat option"
  session_spotifyId :: "string option"
  authenticated :: "bool option"

record Request =
  query :: "string \<rightharpoonup> qval"
  headers_host :: "string option"
  session :: "SessionData option"

text \<open>
  What a handler sends: \<^verbatim>\<open>res.status(n).json(body)\<close> (\<^verbatim>\<open>res.json\<close> alone sends status
  200) or \<^verbatim>\<open>res.redirect(path)\<close>. The bodies are the object shapes of the source: a
  \<^verbatim>\<open>message\<close>, the login \<^verbatim>\<open>url\<close> (kept as its base and the appended search parameters),
  \<^verbatim>\<open>authenticated: false\<close> with an optional \<^verbatim>\<open>reason\<close>, \<^verbatim>\<open>authenticated: true\<close> with the
  user's id, spotifyId, displayName, email, profileImage and followers, and the body of an
  upstream response passed through.
\<close>

datatype body =
    Message string
  | AuthUrl string "(string \<times> string) list"
  | NotAuthenticated "string option"
  | Authenticated nat string string "string option" "string option" "int option"
  | Data string

datatype response = Json nat body | Redirect string

definition SPOTIFY_AUTH_URL :: string where
  "SPOTIFY_AUTH_URL = ''https://accounts.spotify.com/authorize''"

definition SPOTIFY_TOKEN_URL :: string where
  "SPOTIFY_TOKEN_URL = ''https://accounts.spotify.com/api/token''"

definition SPOTIFY_API_BASE :: string where
  "SPOTIFY_API_BASE = ''https://api.spotify.com/v1''"

definition SCOPES :: string where
  "SCOPES = ''user-read-private user-read-email user-top-read''"

text \<open>\<^verbatim>\<open>z.enum(["short_term", "medium_term", "long_term"]).parse(v)\<close> returns \<open>v\<close> when it is
  one of the three strings and throws otherwise.\<close>

definition timeRangeSchema_parse :: "qval \<Rightarrow> error + string" where
  "timeRangeSchema_parse v =
     (case v of
        QStr s \<Rightarrow> if s \<in> set [''short_term'', ''medium_term'', ''long_term''] then Inr s
                  else Inl ZodError
      | _ \<Rightarrow> Inl ZodError)"

text \<open>
  The guard \<^verbatim>\<open>!req.session || !req.session.authenticated || !req.session.userId\<close> and the
  read \<^verbatim>\<open>const userId = req.session.userId\<close> that follows it: \<open>None\<close> when the guard
  fires (no session, flag absent or false, user id absent or 0), the user id otherwise.
\<close>

definition authenticated_userId :: "Request \<Rightarrow> nat option" where
  "authenticated_userId req =
     (case session req of
        None \<Rightarrow> None
      | Some sess \<Rightarrow>
          if authenticated sess \<noteq> Some True then None
          else (case userId sess of
                  None \<Rightarrow> None
                | Some n \<Rightarrow> if n = 0 then None else Some n))"

section \<open>server/routes.ts: the OAuth handlers\<close>

subsection \<open>GET /api/auth/login\<close>

text \<open>The derivation of the redirect URI as the login handler writes it. \<^verbatim>\<open>split\<close> never
  returns an empty array, so its element 0 is a string (lemma \<open>split_str_not_Nil\<close>).\<close>

definition login_redirectUri :: "Env \<Rightarrow> Request \<Rightarrow> string" where
  "login_redirectUri env req =
     (case truthy_string (REPLIT_DOMAINS env) of
        Some replitUrl \<Rightarrow>
          (let domain = trim (hd (split_str CHR '','' replitUrl))
           in ''https://'' @ domain @ ''/api/auth/callback'')
      | None \<Rightarrow>
          (let host = (case truthy_string (headers_host req) of
                         Some h \<Rightarrow> h
                       | None \<Rightarrow> ''localhost:5000'');
               protocol = (if str_includes host ''localhost'' then ''http'' else ''https'')
           in protocol @ ''://'' @ host @ ''/api/auth/callback''))"

definition auth_login :: "Env \<Rightarrow> Request \<Rightarrow> response" where
  "auth_login env req =
     (case truthy_string (SPOTIFY_CLIENT_ID env) of
        None \<Rightarrow> Json 500 (Message ''Spotify client ID not configured'')
      | Some clientId \<Rightarrow>
          (let redirectUri = login_redirectUri env req
           in Json 200 (AuthUrl SPOTIFY_AUTH_URL
                [(''client_id'', clientId),
                 (''response_type'', ''code''),
                 (''redirect_uri'', redirectUri),
                 (''scope'', SCOPES),
                 (''show_dialog'', ''true'')])))"

subsection \<open>GET /api/auth/callback, up to the token exchange\<close>

text \<open>The derivation of the redirect URI as the callback handler writes it.\<close>

definition callback_redirectUri :: "Env \<Rightarrow> Request \<Rightarrow> string" where
  "callback_redirectUri env req =
     (case truthy_string (REPLIT_DOMAINS env) of
        Some replitUrl \<Rightarrow>
          (let domain = trim (hd (split_str CHR '','' replitUrl))
           in ''https://'' @ domain @ ''/api/auth/callback'')
      | None \<Rightarrow>
          (let host = (case truthy_string (headers_host req) of
                         Some h \<Rightarrow> h
                       | None \<Rightarrow> ''localhost:5000'');
               protocol = (if str_includes host ''localhost'' then ''http'' else ''https'')
           in protocol @ ''://'' @ host @ ''/api/auth/callback''))"

text \<open>
  The form-encoded POST that exchanges the code: its URL, its three form fields, and the
  client id and secret of its Basic authorization header. \<open>callback_token_request\<close> is the
  callback handler up to that request: the error thrown before it (the missing code or
  credentials, or the \<^verbatim>\<open>TypeError\<close> of \<^verbatim>\<open>code.toString()\<close>), or the request posted.
\<close>

record token_request =
  token_url :: string
  code :: string
  redirect_uri :: string
  grant_type :: string
  basic_user :: string
  basic_password :: string

definition callback_token_request :: "Env \<Rightarrow> Request \<Rightarrow> error + token_request" where
  "callback_token_request env req =
     (case truthy_qval (query req ''code'') of
        None \<Rightarrow> Inl (Error ''Missing code or credentials'')
      | Some code' \<Rightarrow>
          (case truthy_string (SPOTIFY_CLIENT_ID env) of
             None \<Rightarrow> Inl (Error ''Missing code or credentials'')
           | Some clientId \<Rightarrow>
               (case truthy_string (SPOTIFY_CLIENT_SECRET env) of
                  None \<Rightarrow> Inl (Error ''Missing code or credentials'')
                | Some clientSecret \<Rightarrow>
                    (let redirectUri = callback_redirectUri env req
                     in case js_toString code' of
                          Inl err \<Rightarrow> Inl err
                        | Inr codeString \<Rightarrow>
                            Inr \<lparr>token_url = SPOTIFY_TOKEN_URL,
                                 code = codeString,
                                 redirect_uri = redirectUri,
                                 grant_type = ''authorization_code'',
                                 basic_user = clientId,
                                 basic_password = clientSecret\<rparr>))))"

subsection \<open>GET /api/auth/me\<close>

text \<open>\<open>now_ms\<close> is the value of \<^verbatim>\<open>Date.now()\<close>, in milliseconds; \<^verbatim>\<open>Math.floor(now_ms / 1000)\<close>
  is the integer division. Nothing in the \<^verbatim>\<open>try\<close> block throws.\<close>

definition auth_me :: "MemStorage \<Rightarrow> int \<Rightarrow> Request \<Rightarrow> response" where
  "auth_me storage now_ms req =
     (case authenticated_userId req of
        None \<Rightarrow> Json 401 (NotAuthenticated None)
      | Some userId' \<Rightarrow>
          (case getUser storage userId' of
             None \<Rightarrow> Json 401 (NotAuthenticated None)
           | Some user \<Rightarrow>
               (let now = now_ms div 1000
                in if tokenExpiry user \<le> now
                   then Json 401 (NotAuthenticated (Some ''token_expired''))
                   else Json 200 (Authenticated (user_id user) (spotifyId user)
                          (displayName user) (email user) (profileImage user)
                          (followers user)))))"

section \<open>server/routes.ts: the proxy handlers\<close>

text \<open>
  An upstream call is \<^verbatim>\<open>axios.get(url, {headers: {Authorization}, params})\<close>. The upstream
  API is a parameter \<open>axios_get\<close> of every handler: given the request it returns the body
  of the response, or the error axios throws. A handler returns its response together
  with the list of the upstream requests it issued. The arguments of \<^verbatim>\<open>axios.get\<close> are
  evaluated before the call: when \<^verbatim>\<open>parseInt(limit, 10)\<close> throws, no request is issued.
\<close>

record upstream_request =
  url :: string
  authorization :: string
  time_range :: "string option"
  limit :: js_number

type_synonym upstream = "upstream_request \<Rightarrow> error + string"

text \<open>The \<^verbatim>\<open>catch\<close> block shared by the three handlers.\<close>

definition catch_server_error :: "(error + response) \<Rightarrow> response" where
  "catch_server_error r =
     (case r of Inl err \<Rightarrow> Json 500 (Message ''Server error'') | Inr res \<Rightarrow> res)"

subsection \<open>GET /api/me/top/artists\<close>

definition top_artists_try ::
  "upstream \<Rightarrow> MemStorage \<Rightarrow> Request \<Rightarrow> (error + response) \<times> upstream_request list" where
  "top_artists_try axios_get storage req =
     (let timeRange = js_or (query req ''time_range'') (QStr ''medium_term'');
          limit' = js_or (query req ''limit'') (QStr ''20'')
      in case timeRangeSchema_parse timeRange of
           Inl err \<Rightarrow> (Inl err, [])
         | Inr parsedTimeRange \<Rightarrow>
             (case authenticated_userId req of
                None \<Rightarrow> (Inr (Json 401 (Message ''Unauthorized'')), [])
              | Some userId' \<Rightarrow>
                  (case getUser storage userId' of
                     None \<Rightarrow> (Inr (Json 401 (Message ''User not found'')), [])
                   | Some user \<Rightarrow>
                       (case parseInt_qval limit' of
                          Inl err \<Rightarrow> (Inl err, [])
                        | Inr parsedLimit \<Rightarrow>
                            (let call = \<lparr>url = SPOTIFY_API_BASE @ ''/me/top/artists'',
                                         authorization = ''Bearer '' @ accessToken user,
                                         time_range = Some parsedTimeRange,
                                         limit = parsedLimit\<rparr>
                             in case axios_get call of
                                  Inl err \<Rightarrow> (Inl err, [call])
                                | Inr data \<Rightarrow> (Inr (Json 200 (Data data)), [call]))))))"

definition top_artists ::
  "upstream \<Rightarrow> MemStorage \<Rightarrow> Request \<Rightarrow> response \<times> upstream_request list" where
  "top_artists axios_get storage req =
     (case top_artists_try axios_get storage req of
        (r, calls) \<Rightarrow> (catch_server_error r, calls))"

subsection \<open>GET /api/me/top/tracks\<close>

definition top_tracks_try ::
  "upstream \<Rightarrow> MemStorage \<Rightarrow> Request \<Rightarrow> (error + response) \<times> upstream_request list" where
  "top_tracks_try axios_get storage req =
     (let timeRange = js_or (query req ''time_range'') (QStr ''medium_term'');
          limit' = js_or (query req ''limit'') (QStr ''20'')
      in case timeRangeSchema_parse timeRange of
           Inl err \<Rightarrow> (Inl err, [])
         | Inr parsedTimeRange \<Rightarrow>
             (case authenticated_userId req of
                None \<Rightarrow> (Inr (Json 401 (Message ''Unauthorized'')), [])
              | Some userId' \<Rightarrow>
                  (case getUser storage userId' of
                     None \<Rightarrow> (Inr (Json 401 (Message ''User not found'')), [])
                   | Some user \<Rightarrow>
                       (case parseInt_qval limit' of
                          Inl err \<Rightarrow> (Inl err, [])
                        | Inr parsedLimit \<Rightarrow>
                            (let call = \<lparr>url = SPOTIFY_API_BASE @ ''/me/top/tracks'',
                                         authorization = ''Bearer '' @ accessToken user,
                                         time_range = Some parsedTimeRange,
                                         limit = parsedLimit\<rparr>
                             in case axios_get call of
                                  Inl err \<Rightarrow> (Inl err, [call])
                                | Inr data \<Rightarrow> (Inr (Json 200 (Data data)), [call]))))))"

definition top_tracks ::
  "upstream \<Rightarrow> MemStorage \<Rightarrow> Request \<Rightarrow> response \<times> upstream_request list" where
  "top_tracks axios_get storage req =
     (case top_tracks_try axios_get storage req of
        (r, calls) \<Rightarrow> (catch_server_error r, calls))"

subsection \<open>GET /api/me/player/recently-played\<close>

definition recently_played_try ::
  "upstream \<Rightarrow> MemStorage \<Rightarrow> Request \<Rightarrow> (error + response) \<times> upstream_request list" where
  "recently_played_try axios_get storage req =
     (let limit' = js_or (query req ''limit'') (QStr ''20'')
      in case authenticated_userId req of
           None \<Rightarrow> (Inr (Json 401 (Message ''Unauthorized'')), [])
         | Some userId' \<Rightarrow>
             (case getUser storage userId' of
                None \<Rightarrow> (Inr (Json 401 (Message ''User not found'')), [])
              | Some user \<Rightarrow>
                  (case parseInt_qval limit' of
                     Inl err \<Rightarrow> (Inl err, [])
                   | Inr parsedLimit \<Rightarrow>
                       (let call = \<lparr>url = SPOTIFY_API_BASE @ ''/me/player/recently-played'',
                                    authorization = ''Bearer '' @ accessToken user,
                                    time_range = None,
                                    limit = parsedLimit\<rparr>
                        in case axios_get call of
                             Inl err \<Rightarrow> (Inl err, [call])
                           | Inr data \<Rightarrow> (Inr (Json 200 (Data data)), [call])))))"

definition recently_played ::
  "upstream \<Rightarrow> MemStorage \<Rightarrow> Request \<Rightarrow> response \<times> upstream_request list" where
  "recently_played axios_get storage req =
     (case recently_played_try axios_get storage req of
        (r, calls) \<Rightarrow> (catch_server_error r, calls))"

subsection \<open>The three proxy routes\<close>

datatype endpoint = TopArtists | TopTracks | RecentlyPlayed

fun proxy ::
  "endpoint \<Rightarrow> upstream \<Rightarrow> MemStorage \<Rightarrow> Request \<Rightarrow> response \<times> upstream_request list" where
  "proxy TopArtists = top_artists"
| "proxy TopTracks = top_tracks"
| "proxy RecentlyPlayed = recently_played"

text \<open>The \<^verbatim>\<open>try\<close> blocks of the three routes, before their \<^verbatim>\<open>catch\<close>.\<close>

fun proxy_try ::
  "endpoint \<Rightarrow> upstream \<Rightarrow> MemStorage \<Rightarrow> Request \<Rightarrow> (error + response) \<times> upstream_request list" where
  "proxy_try TopArtists = top_artists_try"
| "proxy_try TopTracks = top_tracks_try"
| "proxy_try RecentlyPlayed = recently_played_try"

section \<open>Invariant of the store and sample values\<close>

text \<open>
  What every reachable store satisfies: the counter is positive, every record is stored
  under its own id, below the counter, and every entry of the index points at a stored
  record of that external identity.
\<close>

definition store_inv :: "MemStorage \<Rightarrow> bool" where
  "store_inv s \<longleftrightarrow>
     0 < currentId s \<and>
     (\<forall>k u. users s k = Some u \<longrightarrow> user_id u = k \<and> k < currentId s) \<and>
     (\<forall>sid k. spotifyIdToUserId s sid = Some k \<longrightarrow>
        0 < k \<and> (\<exists>u. users s k = Some u \<and> spotifyId u = sid))"

text \<open>Concrete values on which the theorems below are instantiated: a draft, a store
  holding one user (id 1, token expiry 1700003600), a session bound to a user id, a
  session that was never bound, a request, an environment, an upstream that answers
  every request and one that fails every request.\<close>

definition sample_draft :: "string \<Rightarrow> InsertUser" where
  "sample_draft sid =
     \<lparr>spotifyId = sid, displayName = ''Listener'', email = None,
      accessToken = ''access-1'', refreshToken = ''refresh-1'', tokenExpiry = 1700003600,
      profileImage = None, followers = Some 0\<rparr>"

definition sample_store :: MemStorage where
  "sample_store = store_after [CreateUser (sample_draft ''alice'')]"

definition sample_session :: "nat \<Rightarrow> SessionData" where
  "sample_session uid =
     \<lparr>userId = Some uid, session_spotifyId = Some ''alice'', authenticated = Some True\<rparr>"

definition anonymous_session :: SessionData where
  "anonymous_session = \<lparr>userId = None, session_spotifyId = None, authenticated = None\<rparr>"

definition sample_request :: "qval option \<Rightarrow> SessionData \<Rightarrow> Request" where
  "sample_request tr sess =
     \<lparr>query = (case tr of None \<Rightarrow> Map.empty | Some v \<Rightarrow> [''time_range'' \<mapsto> v]),
      headers_host = Some ''localhost:5000'',
      session = Some sess\<rparr>"

definition sample_env :: "string option \<Rightarrow> string option \<Rightarrow> Env" where
  "sample_env domains node_env =
     \<lparr>SPOTIFY_CLIENT_ID = Some ''client-id'', SPOTIFY_CLIENT_SECRET = Some ''client-secret'',
      REPLIT_DOMAINS = domains, NODE_ENV = node_env\<rparr>"

definition upstream_ok :: upstream where
  "upstream_ok call = Inr ''{}''"

definition upstream_down :: upstream where
  "upstream_down call = Inl (AxiosError ''Request failed with status code 401'')"

section \<open>The store: invariant\<close>

lemma store_invI:
  assumes "0 < currentId s"
    and "\<And>k u. users s k = Some u \<Longrightarrow> user_id u = k \<and> k < currentId s"
    and "\<And>sid k. spotifyIdToUserId s sid = Some k \<Longrightarrow>
           0 < k \<and> (\<exists>u. users s k = Some u \<and> spotifyId u = sid)"
  shows "store_inv s"
  unfolding store_inv_def using assms by blast

lemma store_inv_counter: "store_inv s \<Longrightarrow> 0 < currentId s"
  by (simp add: store_inv_def)

lemma store_inv_users:
  "store_inv s \<Longrightarrow> users s k = Some u \<Longrightarrow> user_id u = k \<and> k < currentId s"
  unfolding store_inv_def by blast

lemma store_inv_index:
  "store_inv s \<Longrightarrow> spotifyIdToUserId s sid = Some k \<Longrightarrow>
     0 < k \<and> (\<exists>u. users s k = Some u \<and> spotifyId u = sid)"
  unfolding store_inv_def by blast

lemma store_inv_fresh: "store_inv s \<Longrightarrow> users s (currentId s) = None"
proof (rule ccontr)
  assume inv: "store_inv s" and "users s (currentId s) \<noteq> None"
  then obtain u where "users s (currentId s) = Some u" by blast
  from store_inv_users[OF inv this] show False by simp
qed

lemma store_inv_new: "store_inv MemStorage_new"
  by (simp add: store_inv_def MemStorage_new_def)

lemma createUser_fields:
  "createUser s d = (s', u) \<Longrightarrow>
     user_id u = currentId s \<and> spotifyId u = spotifyId d \<and> displayName u = displayName d \<and>
     email u = email d \<and> accessToken u = accessToken d \<and> refreshToken u = refreshToken d \<and>
     tokenExpiry u = tokenExpiry d \<and> profileImage u = profileImage d \<and> followers u = followers d"
  by (auto simp: createUser_def Let_def InsertUser.extend_def User.fields_def)

lemma createUser_state:
  "createUser s d = (s', u) \<Longrightarrow>
     users s' = (users s)(currentId s \<mapsto> u) \<and>
     spotifyIdToUserId s' = (spotifyIdToUserId s)(spotifyId d \<mapsto> currentId s) \<and>
     currentId s' = currentId s + 1"
  by (auto simp: createUser_def Let_def)

lemma store_inv_createUser:
  assumes inv: "store_inv s" and cr: "createUser s d = (s', u)"
  shows "store_inv s'"
proof (rule store_invI)
  note f = createUser_fields[OF cr] and st = createUser_state[OF cr]
  show "0 < currentId s'" using st by simp
  show "user_id v = k \<and> k < currentId s'" if "users s' k = Some v" for k v
  proof (cases "k = currentId s")
    case True
    then show ?thesis using that st f by simp
  next
    case False
    then have "users s k = Some v" using that st by simp
    from store_inv_users[OF inv this] show ?thesis using st by simp
  qed
  show "0 < k \<and> (\<exists>v. users s' k = Some v \<and> spotifyId v = sid)"
    if "spotifyIdToUserId s' sid = Some k" for sid k
  proof (cases "sid = spotifyId d")
    case True
    then have "k = currentId s" using that st by simp
    then show ?thesis using True st f store_inv_counter[OF inv] by simp
  next
    case False
    then have old: "spotifyIdToUserId s sid = Some k" using that st by simp
    from store_inv_index[OF inv old] obtain v
      where v: "0 < k" "users s k = Some v" "spotifyId v = sid" by blast
    from store_inv_users[OF inv v(2)] have "k \<noteq> currentId s" by simp
    then show ?thesis using v st by simp
  qed
qed

lemma updateUserToken_None:
  "users s i = None \<Longrightarrow> updateUserToken s i a r e = (s, None)"
  by (simp add: updateUserToken_def)

lemma updateUserToken_Some:
  "users s i = Some u \<Longrightarrow>
     updateUserToken s i a r e =
       (s\<lparr>users := (users s)(i \<mapsto> u\<lparr>accessToken := a, refreshToken := r, tokenExpiry := e\<rparr>)\<rparr>,
        Some (u\<lparr>accessToken := a, refreshToken := r, tokenExpiry := e\<rparr>))"
  by (simp add: updateUserToken_def Let_def)

lemma store_inv_updateUserToken:
  assumes inv: "store_inv s" and up: "updateUserToken s i a r e = (s', res)"
  shows "store_inv s'"
proof (cases "users s i")
  case None
  then show ?thesis using inv up by (simp add: updateUserToken_None)
next
  case (Some u)
  define u' where "u' = u\<lparr>accessToken := a, refreshToken := r, tokenExpiry := e\<rparr>"
  have s': "s' = s\<lparr>users := (users s)(i \<mapsto> u')\<rparr>"
    using up unfolding updateUserToken_Some[OF Some] u'_def by auto
  have u'_id: "user_id u' = user_id u" and u'_sid: "spotifyId u' = spotifyId u"
    by (simp_all add: u'_def)
  show ?thesis
  proof (rule store_invI)
    show "0 < currentId s'" using store_inv_counter[OF inv] s' by simp
    show "user_id v = k \<and> k < currentId s'" if "users s' k = Some v" for k v
    proof (cases "k = i")
      case True
      then have "v = u'" using that s' by simp
      then show ?thesis using store_inv_users[OF inv Some] True u'_id s' by simp
    next
      case False
      then have "users s k = Some v" using that s' by simp
      from store_inv_users[OF inv this] show ?thesis using s' by simp
    qed
    show "0 < k \<and> (\<exists>v. users s' k = Some v \<and> spotifyId v = sid)"
      if "spotifyIdToUserId s' sid = Some k" for sid k
    proof -
      have "spotifyIdToUserId s sid = Some k" using that s' by simp
      from store_inv_index[OF inv this] obtain v
        where v: "0 < k" "users s k = Some v" "spotifyId v = sid" by blast
      show ?thesis
      proof (cases "k = i")
        case True
        then have "v = u" using v Some by simp
        then show ?thesis using v True s' u'_sid by simp
      next
        case False
        then show ?thesis using v s' by simp
      qed
    qed
  qed
qed

lemma store_inv_apply_op:
  assumes "store_inv s" "apply_op s c = (s', r)"
  shows "store_inv s'"
proof (cases c)
  case (GetUser i)
  then show ?thesis using assms by simp
next
  case (GetUserBySpotifyId sid)
  then show ?thesis using assms by simp
next
  case (CreateUser d)
  obtain t u where "createUser s d = (t, u)" by (cases "createUser s d")
  then show ?thesis using assms CreateUser store_inv_createUser[of s d t u] by simp
next
  case (UpdateUserToken i a r' e)
  then show ?thesis using assms store_inv_updateUserToken[of s i a r' e s' r] by simp
qed

lemma run_ops_Cons:
  "apply_op s c = (s', r) \<Longrightarrow>
     run_ops s (c # cs) = (fst (run_ops s' cs), (c, r) # snd (run_ops s' cs))"
  by (simp add: case_prod_beta)

lemma store_inv_run_ops:
  "store_inv s \<Longrightarrow> store_inv (fst (run_ops s cs))"
proof (induction cs arbitrary: s)
  case Nil
  then show ?case by simp
next
  case (Cons c cs)
  obtain s' r where step: "apply_op s c = (s', r)" by (cases "apply_op s c")
  have "store_inv s'" using Cons.prems step by (rule store_inv_apply_op)
  then have "store_inv (fst (run_ops s' cs))" by (rule Cons.IH)
  then show ?case by (simp only: run_ops_Cons[OF step] fst_conv)
qed

lemma store_inv_store_after: "store_inv (store_after cs)"
  unfolding store_after_def by (rule store_inv_run_ops[OF store_inv_new])

section \<open>The store: created ids\<close>

lemma apply_op_counter:
  "apply_op s c = (s', r) \<Longrightarrow> currentId s \<le> currentId s'"
  by (cases c) (auto simp: createUser_def updateUserToken_def Let_def split: option.splits)

lemma apply_op_CreateUser:
  "apply_op s (CreateUser d) = (s', r) \<Longrightarrow>
     \<exists>u. r = Some u \<and> user_id u = currentId s \<and> currentId s' = currentId s + 1"
  by (auto simp: createUser_def Let_def InsertUser.extend_def User.fields_def)

text \<open>From any state, the ids of the records created by a sequence of calls increase
  strictly and start at the counter.\<close>

lemma run_ops_created_ids:
  "sorted_wrt (<) (created_ids (snd (run_ops s cs))) \<and>
   (\<forall>i \<in> set (created_ids (snd (run_ops s cs))). currentId s \<le> i)"
proof (induction cs arbitrary: s)
  case Nil
  show ?case by simp
next
  case (Cons c cs)
  obtain s' r where step: "apply_op s c = (s', r)" by (cases "apply_op s c")
  let ?log = "snd (run_ops s' cs)"
  have IH1: "sorted_wrt (<) (created_ids ?log)"
    and IH2: "\<And>i. i \<in> set (created_ids ?log) \<Longrightarrow> currentId s' \<le> i"
    using Cons.IH[of s'] by blast+
  have log: "snd (run_ops s (c # cs)) = (c, r) # ?log"
    by (simp only: run_ops_Cons[OF step] snd_conv)
  have mono: "currentId s \<le> currentId s'" using step by (rule apply_op_counter)
  show ?case
  proof (cases c)
    case (CreateUser d)
    from apply_op_CreateUser[OF step[unfolded CreateUser]] obtain u
      where u: "r = Some u" "user_id u = currentId s" "currentId s' = currentId s + 1" by blast
    have ids: "created_ids ((c, r) # ?log) = currentId s # created_ids ?log"
      using CreateUser u by simp
    have "\<And>i. i \<in> set (created_ids ?log) \<Longrightarrow> currentId s < i"
      using IH2 u(3) by fastforce
    then show ?thesis unfolding log ids using IH1 by (auto intro: less_imp_le)
  next
    case (GetUser i)
    then have "created_ids ((c, r) # ?log) = created_ids ?log" by simp
    then show ?thesis unfolding log using IH1 IH2 mono by fastforce
  next
    case (GetUserBySpotifyId sid)
    then have "created_ids ((c, r) # ?log) = created_ids ?log" by simp
    then show ?thesis unfolding log using IH1 IH2 mono by fastforce
  next
    case (UpdateUserToken i a r' e)
    then have "created_ids ((c, r) # ?log) = created_ids ?log" by simp
    then show ?thesis unfolding log using IH1 IH2 mono by fastforce
  qed
qed

lemma createUser_getUserBySpotifyId:
  assumes "0 < currentId s" and "createUser s d = (s', u)"
  shows "getUserBySpotifyId s' (spotifyId d) = Some u"
  using assms(1) createUser_state[OF assms(2)]
  by (simp add: getUserBySpotifyId_def)

lemma getUser_sample_store:
  "getUser sample_store 1 = Some (InsertUser.extend (sample_draft ''alice'') (User.fields 1))"
  by (simp add: sample_store_def store_after_def MemStorage_new_def createUser_def getUser_def Let_def)

lemma sample_user_fields:
  "user_id (InsertUser.extend (sample_draft sid) (User.fields i)) = i"
  "spotifyId (InsertUser.extend (sample_draft sid) (User.fields i)) = sid"
  "displayName (InsertUser.extend (sample_draft sid) (User.fields i)) = ''Listener''"
  "email (InsertUser.extend (sample_draft sid) (User.fields i)) = None"
  "accessToken (InsertUser.extend (sample_draft sid) (User.fields i)) = ''access-1''"
  "refreshToken (InsertUser.extend (sample_draft sid) (User.fields i)) = ''refresh-1''"
  "tokenExpiry (InsertUser.extend (sample_draft sid) (User.fields i)) = 1700003600"
  "profileImage (InsertUser.extend (sample_draft sid) (User.fields i)) = None"
  "followers (InsertUser.extend (sample_draft sid) (User.fields i)) = Some 0"
  by (simp_all add: sample_draft_def InsertUser.extend_def User.fields_def)

section \<open>The store: claims\<close>

text \<open>
  \<^bold>\<open>C5.\<close> For every user record present in the store, \<^verbatim>\<open>updateUserToken(id, accessToken,
  refreshToken, tokenExpiry)\<close> replaces only the access token, the refresh token and the
  token expiry: the call returns the record now stored under \<open>id\<close>, whose three token
  fields are the arguments and whose id, external identity, display name, email, profile
  image and follower count are those of the record before the call. Every other record,
  the index and the counter are unchanged.
\<close>

theorem updateUserToken_frame:
  assumes "users s i = Some u"
  shows "case updateUserToken s i a r e of
           (s', res) \<Rightarrow>
             (\<exists>u'. res = Some u' \<and> getUser s' i = Some u' \<and>
                accessToken u' = a \<and> refreshToken u' = r \<and> tokenExpiry u' = e \<and>
                user_id u' = user_id u \<and> spotifyId u' = spotifyId u \<and>
                displayName u' = displayName u \<and> email u' = email u \<and>
                profileImage u' = profileImage u \<and> followers u' = followers u) \<and>
             (\<forall>j. j \<noteq> i \<longrightarrow> getUser s' j = getUser s j) \<and>
             spotifyIdToUserId s' = spotifyIdToUserId s \<and> currentId s' = currentId s"
  unfolding updateUserToken_Some[OF assms] by (simp add: getUser_def)

theorem updateUserToken_frame_witness:
  "users sample_store 1 \<noteq> None \<and>
   (case updateUserToken sample_store 1 ''access-2'' ''refresh-2'' 1700007200 of
      (s', res) \<Rightarrow>
        (\<exists>u'. res = Some u' \<and> getUser s' 1 = Some u' \<and>
           accessToken u' = ''access-2'' \<and> refreshToken u' = ''refresh-2'' \<and>
           tokenExpiry u' = 1700007200 \<and>
           user_id u' = 1 \<and> spotifyId u' = ''alice'' \<and> displayName u' = ''Listener'' \<and>
           email u' = None \<and> profileImage u' = None \<and> followers u' = Some 0))"
proof -
  let ?u = "InsertUser.extend (sample_draft ''alice'') (User.fields 1)"
  have u: "users sample_store 1 = Some ?u"
    using getUser_sample_store by (simp only: getUser_def)
  from updateUserToken_frame[OF u, of "''access-2''" "''refresh-2''" 1700007200]
  show ?thesis using u unfolding sample_user_fields by (auto split: prod.splits)
qed

text \<open>
  \<^bold>\<open>C6.\<close> On every reachable store, for every draft whose external identity is not yet
  indexed, \<^verbatim>\<open>createUser(draft)\<close> followed by \<^verbatim>\<open>getUserBySpotifyId(draft.spotifyId)\<close>
  returns a record whose id is the id assigned by that \<^verbatim>\<open>createUser\<close> call.
\<close>

theorem createUser_then_getUserBySpotifyId:
  assumes "spotifyIdToUserId (store_after cs) (spotifyId d) = None"
    and "createUser (store_after cs) d = (s', u)"
  shows "\<exists>u'. getUserBySpotifyId s' (spotifyId d) = Some u' \<and> user_id u' = user_id u"
  using createUser_getUserBySpotifyId[OF store_inv_counter[OF store_inv_store_after] assms(2)]
  by simp

theorem createUser_then_getUserBySpotifyId_witness:
  "spotifyIdToUserId (store_after [CreateUser (sample_draft ''alice'')])
     (spotifyId (sample_draft ''bob'')) = None \<and>
   user_id (snd (createUser (store_after [CreateUser (sample_draft ''alice'')])
                   (sample_draft ''bob''))) = 2 \<and>
   (\<exists>u'. getUserBySpotifyId
            (fst (createUser (store_after [CreateUser (sample_draft ''alice'')])
                    (sample_draft ''bob'')))
            (spotifyId (sample_draft ''bob'')) = Some u' \<and> user_id u' = 2)"
proof -
  let ?s = "store_after [CreateUser (sample_draft ''alice'')]"
  let ?d = "sample_draft ''bob''"
  have free: "spotifyIdToUserId ?s (spotifyId ?d) = None"
    by (simp add: store_after_def MemStorage_new_def createUser_def sample_draft_def Let_def)
  have id2: "user_id (snd (createUser ?s ?d)) = 2"
    by (simp add: store_after_def MemStorage_new_def createUser_def sample_draft_def Let_def
        InsertUser.extend_def User.fields_def)
  from createUser_then_getUserBySpotifyId[OF free, of "fst (createUser ?s ?d)" "snd (createUser ?s ?d)"]
  show ?thesis using free id2 by simp
qed

text \<open>
  \<^bold>\<open>C7.\<close> Across every sequence of store operations run on a fresh store, each
  \<^verbatim>\<open>createUser\<close> call returns an id strictly greater than the id returned by every
  earlier \<^verbatim>\<open>createUser\<close> call, so no id is returned twice; and in the store reached,
  every record is stored under its own id, which is below the counter (the next id).
\<close>

theorem createUser_ids_strictly_increasing:
  "sorted_wrt (<) (created_ids (snd (run_ops MemStorage_new cs))) \<and>
   distinct (created_ids (snd (run_ops MemStorage_new cs))) \<and>
   (\<forall>k u. getUser (store_after cs) k = Some u \<longrightarrow>
      user_id u = k \<and> k < currentId (store_after cs))"
proof -
  have "sorted_wrt (<) (created_ids (snd (run_ops MemStorage_new cs)))"
    using run_ops_created_ids[of MemStorage_new cs] by simp
  moreover from this have "distinct (created_ids (snd (run_ops MemStorage_new cs)))"
    by (simp add: strict_sorted_iff)
  moreover have "user_id u = k \<and> k < currentId (store_after cs)"
    if "getUser (store_after cs) k = Some u" for k u
    using store_inv_users[OF store_inv_store_after, of cs k u] that by (simp add: getUser_def)
  ultimately show ?thesis by blast
qed

theorem createUser_ids_strictly_increasing_witness:
  "created_ids (snd (run_ops MemStorage_new
      [CreateUser (sample_draft ''alice''), GetUser 1, CreateUser (sample_draft ''alice''),
       UpdateUserToken 7 ''a'' ''r'' 5, CreateUser (sample_draft ''bob'')])) = [1, 2, 3] \<and>
   sorted_wrt (<) [1, 2, 3 :: nat] \<and> distinct [1, 2, 3 :: nat] \<and>
   map_option user_id (getUser (store_after
      [CreateUser (sample_draft ''alice''), GetUser 1, CreateUser (sample_draft ''alice''),
       UpdateUserToken 7 ''a'' ''r'' 5, CreateUser (sample_draft ''bob'')]) 3) = Some 3 \<and>
   currentId (store_after
      [CreateUser (sample_draft ''alice''), GetUser 1, CreateUser (sample_draft ''alice''),
       UpdateUserToken 7 ''a'' ''r'' 5, CreateUser (sample_draft ''bob'')]) = 4"
proof -
  let ?cs = "[CreateUser (sample_draft ''alice''), GetUser 1, CreateUser (sample_draft ''alice''),
       UpdateUserToken 7 ''a'' ''r'' 5, CreateUser (sample_draft ''bob'')]"
  have ids: "created_ids (snd (run_ops MemStorage_new ?cs)) = [1, 2, 3]"
    by (simp add: MemStorage_new_def createUser_def updateUserToken_def getUser_def
        sample_draft_def Let_def InsertUser.extend_def User.fields_def)
  have cur: "currentId (store_after ?cs) = 4"
    by (simp add: store_after_def MemStorage_new_def createUser_def updateUserToken_def
        getUser_def Let_def)
  have "getUser (store_after ?cs) 3 \<noteq> None"
    by (simp add: store_after_def MemStorage_new_def createUser_def updateUserToken_def
        getUser_def Let_def)
  then obtain u where u: "getUser (store_after ?cs) 3 = Some u" by blast
  from createUser_ids_strictly_increasing[of ?cs]
  show ?thesis unfolding ids using u cur by simp
qed

text \<open>
  \<^bold>\<open>C9.\<close> The store does not enforce the uniqueness of external identities: on every
  reachable store in which an external identity is already indexed, \<^verbatim>\<open>createUser\<close> with
  a draft of that identity returns a record under the counter's value, an id under which
  nothing was stored and which differs from the indexed one; the index now points at the
  new record, which \<^verbatim>\<open>getUserBySpotifyId\<close> returns; and the older record is still returned
  by \<^verbatim>\<open>getUser\<close> under its original id.
\<close>

theorem createUser_duplicate_spotifyId:
  assumes "spotifyIdToUserId (store_after cs) (spotifyId d) = Some k"
  shows "case createUser (store_after cs) d of
           (s', u) \<Rightarrow>
             user_id u = currentId (store_after cs) \<and>
             getUser (store_after cs) (user_id u) = None \<and>
             user_id u \<noteq> k \<and>
             getUser s' (user_id u) = Some u \<and>
             spotifyIdToUserId s' (spotifyId d) = Some (user_id u) \<and>
             getUserBySpotifyId s' (spotifyId d) = Some u \<and>
             (\<exists>old. getUser (store_after cs) k = Some old \<and> user_id old = k \<and>
                    spotifyId old = spotifyId d \<and> getUser s' k = Some old)"
proof -
  let ?s = "store_after cs"
  obtain s' u where cr: "createUser ?s d = (s', u)" by (cases "createUser ?s d")
  note inv = store_inv_store_after[of cs]
  note f = createUser_fields[OF cr] and st = createUser_state[OF cr]
  from store_inv_index[OF inv assms] obtain old
    where old: "0 < k" "users ?s k = Some old" "spotifyId old = spotifyId d" by blast
  from store_inv_users[OF inv old(2)] have k: "user_id old = k" "k < currentId ?s" by simp_all
  have fresh: "getUser ?s (user_id u) = None"
    using store_inv_fresh[OF inv] f by (simp add: getUser_def)
  have neq: "user_id u \<noteq> k" using k f by simp
  have new: "getUser s' (user_id u) = Some u" using st f by (simp add: getUser_def)
  have idx: "spotifyIdToUserId s' (spotifyId d) = Some (user_id u)" using st f by simp
  have byid: "getUserBySpotifyId s' (spotifyId d) = Some u"
    using createUser_getUserBySpotifyId[OF store_inv_counter[OF inv] cr] .
  have kept: "getUser s' k = Some old" using st old k by (simp add: getUser_def)
  have "getUser ?s k = Some old" using old by (simp add: getUser_def)
  then show ?thesis unfolding cr using f fresh neq new idx byid kept k old by simp
qed

theorem createUser_duplicate_spotifyId_witness:
  "spotifyIdToUserId (store_after [CreateUser (sample_draft ''alice'')])
     (spotifyId (sample_draft ''alice'')) = Some 1 \<and>
   (case createUser (store_after [CreateUser (sample_draft ''alice'')]) (sample_draft ''alice'') of
      (s', u) \<Rightarrow> user_id u = 2 \<and> getUser s' 2 = Some u \<and>
         spotifyIdToUserId s' ''alice'' = Some 2 \<and> getUserBySpotifyId s' ''alice'' = Some u \<and>
         (\<exists>old. getUser s' 1 = Some old \<and> user_id old = 1 \<and> spotifyId old = ''alice''))"
proof -
  let ?s = "store_after [CreateUser (sample_draft ''alice'')]"
  have idx: "spotifyIdToUserId ?s (spotifyId (sample_draft ''alice'')) = Some 1"
    by (simp add: store_after_def MemStorage_new_def createUser_def sample_draft_def Let_def)
  have cur: "currentId ?s = 2"
    by (simp add: store_after_def MemStorage_new_def createUser_def sample_draft_def Let_def)
  have sid: "spotifyId (sample_draft ''alice'') = ''alice''"
    by (simp add: sample_draft_def)
  from createUser_duplicate_spotifyId[OF idx]
  show ?thesis using idx unfolding cur sid by (auto split: prod.splits)
qed

section \<open>The handlers: lemmas\<close>

lemma split_str_not_Nil: "split_str sep s \<noteq> []"
  by (induction s) (auto split: list.splits)

lemma login_param_redirect_uri:
  "auth_login env req = Json 200 (AuthUrl b ps) \<Longrightarrow>
     map_of ps ''redirect_uri'' = Some (login_redirectUri env req)"
  by (auto simp: auth_login_def Let_def split: option.splits)

lemma callback_field_redirect_uri:
  "callback_token_request env req = Inr t \<Longrightarrow> redirect_uri t = callback_redirectUri env req"
  by (auto simp: callback_token_request_def Let_def split: option.splits sum.splits)

lemma redirectUri_same_inputs:
  assumes "REPLIT_DOMAINS env = REPLIT_DOMAINS env'" and "headers_host req = headers_host req'"
  shows "login_redirectUri env req = callback_redirectUri env' req'"
  unfolding login_redirectUri_def callback_redirectUri_def assms ..

text \<open>The guard of the session fires exactly when the session is missing, its flag is
  not \<^verbatim>\<open>true\<close>, or its user id is missing or 0.\<close>

lemma authenticated_userId_None_iff:
  "authenticated_userId req = None \<longleftrightarrow>
     (case session req of
        None \<Rightarrow> True
      | Some sess \<Rightarrow> authenticated sess \<noteq> Some True \<or> userId sess = None \<or> userId sess = Some 0)"
  by (auto simp: authenticated_userId_def split: option.splits)

lemma sample_session_userId: "authenticated_userId (sample_request tr (sample_session 1)) = Some 1"
  by (simp add: authenticated_userId_def sample_request_def sample_session_def)

lemma anonymous_session_userId: "authenticated_userId (sample_request tr anonymous_session) = None"
  by (simp add: authenticated_userId_def sample_request_def anonymous_session_def)

lemma sample_request_query:
  "query (sample_request None sess) ''time_range'' = None"
  "query (sample_request (Some v) sess) ''time_range'' = Some v"
  "query (sample_request tr sess) ''limit'' = None"
  by (simp_all add: sample_request_def split: option.splits)

subsection \<open>Numbers and conversions\<close>

lemma bit_length_eq: "2 ^ k \<le> m \<Longrightarrow> m < 2 ^ Suc k \<Longrightarrow> bit_length m = Suc k"
proof (induction k arbitrary: m)
  case 0
  then have "m = 1" by simp
  then show ?case by (simp add: bit_length.simps[of "Suc 0"] bit_length.simps[of 0])
next
  case (Suc k)
  have "2 ^ k \<le> m div 2" using Suc.prems(1) by simp
  moreover have "m div 2 < 2 ^ Suc k" using Suc.prems(2) by simp
  ultimately have "bit_length (m div 2) = Suc k" by (rule Suc.IH)
  moreover have "m \<noteq> 0"
  proof
    assume "m = 0"
    then have "(2::nat) ^ Suc k \<le> 0" using Suc.prems(1) by simp
    then show False by simp
  qed
  ultimately show ?case by (simp add: bit_length.simps[of m])
qed

lemma to_double_exact: "m < 2 ^ 53 \<Longrightarrow> to_double m = Some m"
  by (simp add: to_double_def)

text \<open>\<open>2 ^ 53 + 1\<close> is halfway between two doubles and goes to the even one; twenty nines
  round up to \<open>10 ^ 20\<close>; \<open>2 ^ 1024\<close> is beyond the largest double.\<close>

lemma to_double_tie: "to_double (2 ^ 53 + 1) = Some (2 ^ 53)"
proof -
  have "bit_length (2 ^ 53 + 1) = Suc 53" by (rule bit_length_eq) simp_all
  then show ?thesis by (simp add: to_double_def Let_def)
qed

lemma to_double_twenty_nines: "to_double 99999999999999999999 = Some 100000000000000000000"
proof -
  have "bit_length 99999999999999999999 = Suc 66" by (rule bit_length_eq) simp_all
  then show ?thesis by (simp add: to_double_def Let_def)
qed

lemma to_double_overflow: "to_double (2 ^ 1024) = None"
proof -
  have "bit_length (2 ^ 1024) = Suc 1024" by (rule bit_length_eq) simp_all
  then show ?thesis by (simp add: to_double_def Let_def)
qed

lemma parseInt10_twenty_nines:
  "parseInt10 ''99999999999999999999'' = Finite False 100000000000000000000"
proof -
  have "digits_value ''99999999999999999999'' = 99999999999999999999"
    by (simp add: digits_value_def)
  then show ?thesis
    by (simp add: parseInt10_def is_white_space_def is_digit_def to_double_twenty_nines Let_def)
qed

lemma parseInt10_examples:
  "parseInt10 ''20'' = Finite False 20"
  "parseInt10 '' -0x'' = Finite True 0"
  "parseInt10 ''7,8'' = Finite False 7"
  "parseInt10 ''abc'' = NaN"
  by (simp_all add: parseInt10_def is_white_space_def is_digit_def digits_value_def
      to_double_def Let_def)

lemma js_toString_examples:
  "js_toString (QArr [QStr ''7'', QObj [], QArr [QStr ''a'', QStr ''b'']]) =
     Inr ''7,[object Object],a,b''"
  "js_toString (QObj [(''toString'', QStr ''x'')]) = Inl TypeError"
  "js_toString (QArr [QStr ''7'', QObj [(''toString'', QArr [])]]) = Inl TypeError"
  by simp_all

lemma parseInt_qval_string: "parseInt_qval (QStr s) = Inr (parseInt10 s)"
  by (simp add: parseInt_qval_def)

lemma default_limit: "parseInt_qval (js_or None (QStr ''20'')) = Inr (Finite False 20)"
  by (simp add: js_or_def truthy_qval_def parseInt_qval_def parseInt10_examples)

subsection \<open>The requested time range\<close>

lemma js_or_falsy: "v = None \<or> v = Some (QStr []) \<Longrightarrow> js_or v d = d"
  by (auto simp: js_or_def truthy_qval_def)

lemma js_or_truthy: "v = Some x \<Longrightarrow> x \<noteq> QStr [] \<Longrightarrow> js_or v d = x"
  by (cases x) (auto simp: js_or_def truthy_qval_def)

lemma timeRangeSchema_parse_Inr_iff:
  "timeRangeSchema_parse v = Inr s \<longleftrightarrow>
     v = QStr s \<and> s \<in> {''short_term'', ''medium_term'', ''long_term''}"
  by (cases v) (auto simp: timeRangeSchema_parse_def)

lemma timeRangeSchema_parse_Inl_iff:
  "timeRangeSchema_parse v = Inl err \<longleftrightarrow>
     err = ZodError \<and> v \<notin> {QStr ''short_term'', QStr ''medium_term'', QStr ''long_term''}"
  by (cases v) (auto simp: timeRangeSchema_parse_def)

lemma requested_default:
  assumes "query req ''time_range'' = None \<or> query req ''time_range'' = Some (QStr [])"
  shows "timeRangeSchema_parse (js_or (query req ''time_range'') (QStr ''medium_term'')) =
           Inr ''medium_term''"
  unfolding js_or_falsy[OF assms] by (simp add: timeRangeSchema_parse_def)

lemma requested_valid:
  assumes "query req ''time_range'' = Some (QStr s)"
    and "s \<in> {''short_term'', ''medium_term'', ''long_term''}"
  shows "timeRangeSchema_parse (js_or (query req ''time_range'') (QStr ''medium_term'')) = Inr s"
proof -
  have "QStr s \<noteq> QStr []" using assms(2) by auto
  from js_or_truthy[OF assms(1) this] show ?thesis
    using assms(2) by (simp add: timeRangeSchema_parse_Inr_iff)
qed

lemma requested_invalid:
  assumes "query req ''time_range'' = Some v"
    and "v \<notin> {QStr [], QStr ''short_term'', QStr ''medium_term'', QStr ''long_term''}"
  shows "timeRangeSchema_parse (js_or (query req ''time_range'') (QStr ''medium_term'')) =
           Inl ZodError"
proof -
  have "v \<noteq> QStr []" using assms(2) by simp
  from js_or_truthy[OF assms(1) this] show ?thesis
    using assms(2) by (simp add: timeRangeSchema_parse_Inl_iff)
qed

lemma accepted_time_range:
  assumes "query req ''time_range'' \<in>
             {None, Some (QStr []), Some (QStr ''short_term''), Some (QStr ''medium_term''),
              Some (QStr ''long_term'')}"
  shows "\<exists>tr. timeRangeSchema_parse (js_or (query req ''time_range'') (QStr ''medium_term'')) =
                Inr tr"
proof -
  consider "query req ''time_range'' = None \<or> query req ''time_range'' = Some (QStr [])"
    | s where "query req ''time_range'' = Some (QStr s)"
        "s \<in> {''short_term'', ''medium_term'', ''long_term''}"
    using assms by auto
  then show ?thesis
  proof cases
    case 1
    from requested_default[OF this] show ?thesis by blast
  next
    case 2
    from requested_valid[OF this] show ?thesis by blast
  qed
qed

lemma rejected_time_range:
  assumes "query req ''time_range'' \<notin>
             {None, Some (QStr []), Some (QStr ''short_term''), Some (QStr ''medium_term''),
              Some (QStr ''long_term'')}"
  shows "timeRangeSchema_parse (js_or (query req ''time_range'') (QStr ''medium_term'')) =
           Inl ZodError"
proof -
  from assms obtain v where v: "query req ''time_range'' = Some v"
    by (cases "query req ''time_range''") auto
  have "v \<notin> {QStr [], QStr ''short_term'', QStr ''medium_term'', QStr ''long_term''}"
    using assms v by auto
  from requested_invalid[OF v this] show ?thesis .
qed

subsection \<open>The outcomes of a proxy handler\<close>

lemma proxy_catch:
  "proxy e ax st req =
     (catch_server_error (fst (proxy_try e ax st req)), snd (proxy_try e ax st req))"
  by (cases e) (simp_all add: top_artists_def top_tracks_def recently_played_def case_prod_beta)

lemma proxy_try_rejected:
  assumes "e \<noteq> RecentlyPlayed"
    and "timeRangeSchema_parse (js_or (query req ''time_range'') (QStr ''medium_term'')) = Inl err"
  shows "proxy_try e ax st req = (Inl err, [])"
  using assms by (cases e) (simp_all add: top_artists_try_def top_tracks_try_def Let_def)

lemma proxy_try_unauthenticated:
  assumes "e = RecentlyPlayed \<or>
           timeRangeSchema_parse (js_or (query req ''time_range'') (QStr ''medium_term'')) = Inr tr"
    and "authenticated_userId req = None"
  shows "proxy_try e ax st req = (Inr (Json 401 (Message ''Unauthorized'')), [])"
  using assms
  by (cases e) (simp_all add: top_artists_try_def top_tracks_try_def recently_played_try_def Let_def)

lemma proxy_try_unknown_user:
  assumes "e = RecentlyPlayed \<or>
           timeRangeSchema_parse (js_or (query req ''time_range'') (QStr ''medium_term'')) = Inr tr"
    and "authenticated_userId req = Some uid" and "getUser st uid = None"
  shows "proxy_try e ax st req = (Inr (Json 401 (Message ''User not found'')), [])"
  using assms
  by (cases e) (simp_all add: top_artists_try_def top_tracks_try_def recently_played_try_def Let_def)

lemma proxy_try_limit_error:
  assumes "e = RecentlyPlayed \<or>
           timeRangeSchema_parse (js_or (query req ''time_range'') (QStr ''medium_term'')) = Inr tr"
    and "authenticated_userId req = Some uid" and "getUser st uid = Some u"
    and "parseInt_qval (js_or (query req ''limit'') (QStr ''20'')) = Inl err"
  shows "proxy_try e ax st req = (Inl err, [])"
  using assms
  by (cases e) (simp_all add: top_artists_try_def top_tracks_try_def recently_played_try_def Let_def)

text \<open>The request a handler issues once the time range, the session, the user and the
  limit have passed: \<open>tr\<close> is the validated time range and \<open>n\<close> the parsed limit.\<close>

lemma proxy_try_call:
  assumes "e = RecentlyPlayed \<or>
           timeRangeSchema_parse (js_or (query req ''time_range'') (QStr ''medium_term'')) = Inr tr"
    and "authenticated_userId req = Some uid" and "getUser st uid = Some u"
    and "parseInt_qval (js_or (query req ''limit'') (QStr ''20'')) = Inr n"
    and "call = \<lparr>url = SPOTIFY_API_BASE @
                       (case e of TopArtists \<Rightarrow> ''/me/top/artists''
                        | TopTracks \<Rightarrow> ''/me/top/tracks''
                        | RecentlyPlayed \<Rightarrow> ''/me/player/recently-played''),
                  authorization = ''Bearer '' @ accessToken u,
                  time_range = (if e = RecentlyPlayed then None else Some tr),
                  limit = n\<rparr>"
  shows "proxy_try e ax st req =
           (case ax call of
              Inl err \<Rightarrow> (Inl err, [call])
            | Inr d \<Rightarrow> (Inr (Json 200 (Data d)), [call]))"
proof (cases e)
  case TopArtists
  then show ?thesis using assms
    by (simp add: top_artists_try_def Let_def split: sum.splits)
next
  case TopTracks
  then show ?thesis using assms
    by (simp add: top_tracks_try_def Let_def split: sum.splits)
next
  case RecentlyPlayed
  then show ?thesis using assms
    by (simp add: recently_played_try_def Let_def split: sum.splits)
qed

lemma proxy_rejected:
  assumes "e \<noteq> RecentlyPlayed"
    and "timeRangeSchema_parse (js_or (query req ''time_range'') (QStr ''medium_term'')) = Inl err"
  shows "proxy e ax st req = (Json 500 (Message ''Server error''), [])"
  unfolding proxy_catch proxy_try_rejected[OF assms] by (simp add: catch_server_error_def)

lemma proxy_unauthenticated:
  assumes "e = RecentlyPlayed \<or>
           timeRangeSchema_parse (js_or (query req ''time_range'') (QStr ''medium_term'')) = Inr tr"
    and "authenticated_userId req = None"
  shows "proxy e ax st req = (Json 401 (Message ''Unauthorized''), [])"
  unfolding proxy_catch proxy_try_unauthenticated[OF assms] by (simp add: catch_server_error_def)

lemma proxy_unknown_user:
  assumes "e = RecentlyPlayed \<or>
           timeRangeSchema_parse (js_or (query req ''time_range'') (QStr ''medium_term'')) = Inr tr"
    and "authenticated_userId req = Some uid" and "getUser st uid = None"
  shows "proxy e ax st req = (Json 401 (Message ''User not found''), [])"
  unfolding proxy_catch proxy_try_unknown_user[OF assms] by (simp add: catch_server_error_def)

lemma proxy_limit_error:
  assumes "e = RecentlyPlayed \<or>
           timeRangeSchema_parse (js_or (query req ''time_range'') (QStr ''medium_term'')) = Inr tr"
    and "authenticated_userId req = Some uid" and "getUser st uid = Some u"
    and "parseInt_qval (js_or (query req ''limit'') (QStr ''20'')) = Inl err"
  shows "proxy e ax st req = (Json 500 (Message ''Server error''), [])"
  unfolding proxy_catch proxy_try_limit_error[OF assms] by (simp add: catch_server_error_def)

lemma proxy_call:
  assumes "e = RecentlyPlayed \<or>
           timeRangeSchema_parse (js_or (query req ''time_range'') (QStr ''medium_term'')) = Inr tr"
    and "authenticated_userId req = Some uid" and "getUser st uid = Some u"
    and "parseInt_qval (js_or (query req ''limit'') (QStr ''20'')) = Inr n"
    and "call = \<lparr>url = SPOTIFY_API_BASE @
                       (case e of TopArtists \<Rightarrow> ''/me/top/artists''
                        | TopTracks \<Rightarrow> ''/me/top/tracks''
                        | RecentlyPlayed \<Rightarrow> ''/me/player/recently-played''),
                  authorization = ''Bearer '' @ accessToken u,
                  time_range = (if e = RecentlyPlayed then None else Some tr),
                  limit = n\<rparr>"
  shows "proxy e ax st req =
           (case ax call of
              Inl err \<Rightarrow> Json 500 (Message ''Server error'')
            | Inr d \<Rightarrow> Json 200 (Data d),
            [call])"
  unfolding proxy_catch proxy_try_call[OF assms]
  by (simp add: catch_server_error_def split: sum.splits)

text \<open>The \<^verbatim>\<open>TypeError\<close> path: an authenticated request whose \<^verbatim>\<open>limit\<close> is an object with a
  key \<^verbatim>\<open>toString\<close> gets 500, and no upstream request is issued.\<close>

lemma proxy_limit_TypeError:
  "proxy RecentlyPlayed upstream_ok sample_store
     ((sample_request None (sample_session 1))
        \<lparr>query := [''limit'' \<mapsto> QObj [(''toString'', QStr ''x'')]]\<rparr>) =
     (Json 500 (Message ''Server error''), [])"
proof -
  let ?req = "(sample_request None (sample_session 1))
                \<lparr>query := [''limit'' \<mapsto> QObj [(''toString'', QStr ''x'')]]\<rparr>"
  have auth: "authenticated_userId ?req = Some 1"
    by (simp add: authenticated_userId_def sample_request_def sample_session_def)
  have lim: "parseInt_qval (js_or (query ?req ''limit'') (QStr ''20'')) = Inl TypeError"
    by (simp add: parseInt_qval_def js_or_def truthy_qval_def)
  show ?thesis
    by (rule proxy_limit_error[OF _ auth getUser_sample_store lim]) simp
qed

text \<open>An upstream request of a top route carries the time range that passed validation.\<close>

lemma proxy_calls_time_range:
  assumes "e = TopArtists \<or> e = TopTracks" and "call \<in> set (snd (proxy e ax st req))"
  shows "\<exists>tr. time_range call = Some tr \<and>
           timeRangeSchema_parse (js_or (query req ''time_range'') (QStr ''medium_term'')) = Inr tr"
proof (cases "timeRangeSchema_parse (js_or (query req ''time_range'') (QStr ''medium_term''))")
  case (Inl err)
  have "e \<noteq> RecentlyPlayed" using assms(1) by auto
  from proxy_rejected[OF this Inl, of ax st] show ?thesis using assms(2) by simp
next
  case (Inr tr)
  then have acc: "e = RecentlyPlayed \<or>
      timeRangeSchema_parse (js_or (query req ''time_range'') (QStr ''medium_term'')) = Inr tr"
    by simp
  show ?thesis
  proof (cases "authenticated_userId req")
    case None
    from proxy_unauthenticated[OF acc None, of ax st] show ?thesis using assms(2) by simp
  next
    case (Some uid)
    note auth = this
    show ?thesis
    proof (cases "getUser st uid")
      case None
      from proxy_unknown_user[OF acc auth None, of ax] show ?thesis using assms(2) by simp
    next
      case (Some u)
      show ?thesis
      proof (cases "parseInt_qval (js_or (query req ''limit'') (QStr ''20''))")
        case (Inl err)
        from proxy_limit_error[OF acc auth Some Inl, of ax] show ?thesis using assms(2) by simp
      next
        case (Inr n)
        from proxy_call[OF acc auth Some Inr refl, of ax]
        show ?thesis using assms \<open>timeRangeSchema_parse _ = Inr tr\<close> by auto
      qed
    qed
  qed
qed

text \<open>A proxy handler reads the store only through the access token of the session's
  user.\<close>

lemma proxy_store_cong:
  assumes "\<And>k. authenticated_userId req = Some k \<Longrightarrow>
             map_option accessToken (getUser st' k) = map_option accessToken (getUser st k)"
  shows "proxy e ax st' req = proxy e ax st req"
proof (cases "authenticated_userId req")
  case None
  then show ?thesis
    by (cases e)
      (simp_all add: top_artists_def top_artists_try_def top_tracks_def top_tracks_try_def
        recently_played_def recently_played_try_def Let_def split: sum.splits)
next
  case (Some k)
  note eq = assms[OF Some]
  show ?thesis
  proof (cases "getUser st k")
    case None
    then have "getUser st' k = None" using eq by simp
    then show ?thesis using None Some
      by (cases e)
        (simp_all add: top_artists_def top_artists_try_def top_tracks_def top_tracks_try_def
          recently_played_def recently_played_try_def Let_def split: sum.splits)
  next
    case (Some v)
    then obtain v' where v': "getUser st' k = Some v'" "accessToken v' = accessToken v"
      using eq by (cases "getUser st' k") auto
    then show ?thesis using Some \<open>authenticated_userId req = Some k\<close>
      by (cases e)
        (simp_all add: top_artists_def top_artists_try_def top_tracks_def top_tracks_try_def
          recently_played_def recently_played_try_def Let_def split: sum.splits)
  qed
qed

lemma proxy_store_tokenExpiry:
  assumes "getUser st uid = Some u"
  shows "proxy e ax (st\<lparr>users := (users st)(uid \<mapsto> u\<lparr>tokenExpiry := x\<rparr>)\<rparr>) req =
         proxy e ax st req"
proof (rule proxy_store_cong)
  fix k
  show "map_option accessToken
          (getUser (st\<lparr>users := (users st)(uid \<mapsto> u\<lparr>tokenExpiry := x\<rparr>)\<rparr>) k) =
        map_option accessToken (getUser st k)"
    using assms by (cases "k = uid") (simp_all add: getUser_def)
qed

section \<open>The OAuth handlers: claims\<close>

text \<open>
  \<^bold>\<open>C4.\<close> The redirect URI derived by the login handler and the one derived by the
  callback handler are the same function of the configured domain list and the request's
  host header: whenever the two handlers see the same \<^verbatim>\<open>REPLIT_DOMAINS\<close> and the same
  host, they compute the same string, whatever the production flag and the rest of the
  environment and of the requests are. In particular the \<^verbatim>\<open>redirect_uri\<close> parameter of the
  authorization URL that login returns is the \<^verbatim>\<open>redirect_uri\<close> field of the token request
  that callback posts.
\<close>

theorem redirectUri_login_callback_identical:
  assumes "REPLIT_DOMAINS env = REPLIT_DOMAINS env'" and "headers_host req = headers_host req'"
  shows "login_redirectUri env req = callback_redirectUri env' req' \<and>
         (\<forall>b ps t. auth_login env req = Json 200 (AuthUrl b ps) \<and>
                    callback_token_request env' req' = Inr t \<longrightarrow>
                    map_of ps ''redirect_uri'' = Some (redirect_uri t))"
  using redirectUri_same_inputs[OF assms] login_param_redirect_uri callback_field_redirect_uri
  by metis

theorem redirectUri_login_callback_identical_witness:
  "login_redirectUri (sample_env (Some ''app.example.dev , other.example.dev'') None)
     (sample_request None anonymous_session) = ''https://app.example.dev/api/auth/callback'' \<and>
   callback_redirectUri
     (sample_env (Some ''app.example.dev , other.example.dev'') (Some ''production''))
     (sample_request (Some (QStr ''short_term'')) (sample_session 1)) =
     ''https://app.example.dev/api/auth/callback'' \<and>
   login_redirectUri (sample_env None None) (sample_request None anonymous_session) =
     ''http://localhost:5000/api/auth/callback'' \<and>
   callback_redirectUri (sample_env None (Some ''production''))
     (sample_request None (sample_session 1)) = ''http://localhost:5000/api/auth/callback''"
proof -
  let ?d = "Some ''app.example.dev , other.example.dev''"
  have env: "REPLIT_DOMAINS (sample_env ds None) = REPLIT_DOMAINS (sample_env ds (Some ''production''))"
    for ds by (simp add: sample_env_def)
  have host: "headers_host (sample_request None anonymous_session) =
              headers_host (sample_request tr (sample_session 1))" for tr
    by (simp add: sample_request_def)
  have 1: "login_redirectUri (sample_env ?d None) (sample_request None anonymous_session) =
             ''https://app.example.dev/api/auth/callback''"
    by (simp add: login_redirectUri_def sample_env_def truthy_string_def trim_def
        is_white_space_def Let_def)
  have 2: "login_redirectUri (sample_env None None) (sample_request None anonymous_session) =
             ''http://localhost:5000/api/auth/callback''"
    by (simp add: login_redirectUri_def sample_env_def sample_request_def truthy_string_def
        Let_def)
  from redirectUri_login_callback_identical[OF env[of ?d] host[of "Some (QStr ''short_term'')"]]
       redirectUri_login_callback_identical[OF env[of None] host[of None]]
  show ?thesis unfolding 1 2 by simp
qed

text \<open>
  \<^bold>\<open>C10.\<close> The expiry comparison of \<^verbatim>\<open>/api/auth/me\<close> is inclusive: for every authenticated
  session bound to a stored user, the handler answers 401 with \<^verbatim>\<open>authenticated: false\<close>
  and the reason \<^verbatim>\<open>token_expired\<close> when the stored expiry is less than or equal to the
  current time in seconds, and answers with the authenticated user's payload when the
  stored expiry is strictly greater.
\<close>

theorem auth_me_expiry_inclusive:
  assumes "authenticated_userId req = Some uid" and "getUser st uid = Some u"
  shows "(tokenExpiry u \<le> now_ms div 1000 \<longrightarrow>
            auth_me st now_ms req = Json 401 (NotAuthenticated (Some ''token_expired''))) \<and>
         (now_ms div 1000 < tokenExpiry u \<longrightarrow>
            auth_me st now_ms req =
              Json 200 (Authenticated (user_id u) (spotifyId u) (displayName u) (email u)
                          (profileImage u) (followers u)))"
  using assms by (simp add: auth_me_def Let_def)

theorem auth_me_expiry_inclusive_witness:
  "auth_me sample_store 1700003600000 (sample_request None (sample_session 1)) =
     Json 401 (NotAuthenticated (Some ''token_expired'')) \<and>
   auth_me sample_store 1700003599999 (sample_request None (sample_session 1)) =
     Json 200 (Authenticated 1 ''alice'' ''Listener'' None None (Some 0))"
proof -
  from auth_me_expiry_inclusive[OF sample_session_userId getUser_sample_store, of 1700003600000 None]
       auth_me_expiry_inclusive[OF sample_session_userId getUser_sample_store, of 1700003599999 None]
  show ?thesis unfolding sample_user_fields by simp
qed

section \<open>The proxy handlers: claims\<close>

text \<open>
  \<^bold>\<open>C1, as stated, fails.\<close> The stored user of \<open>sample_store\<close> has the token expiry
  1700003600, and the clock reads 1800000000 seconds: \<^verbatim>\<open>/api/auth/me\<close> answers
  \<^verbatim>\<open>token_expired\<close>, yet each of the three proxy handlers issues its upstream request with
  the stored access token and answers 200 with the upstream body.
\<close>

theorem proxy_expired_token_counterexample:
  "map_option tokenExpiry (getUser sample_store 1) = Some 1700003600 \<and>
   (1700003600 :: int) < 1800000000000 div 1000 \<and>
   auth_me sample_store 1800000000000 (sample_request None (sample_session 1)) =
     Json 401 (NotAuthenticated (Some ''token_expired'')) \<and>
   recently_played upstream_ok sample_store (sample_request None (sample_session 1)) =
     (Json 200 (Data ''{}''),
      [\<lparr>url = ''https://api.spotify.com/v1/me/player/recently-played'',
        authorization = ''Bearer access-1'', time_range = None,
        limit = Finite False 20\<rparr>]) \<and>
   top_artists upstream_ok sample_store (sample_request None (sample_session 1)) =
     (Json 200 (Data ''{}''),
      [\<lparr>url = ''https://api.spotify.com/v1/me/top/artists'',
        authorization = ''Bearer access-1'', time_range = Some ''medium_term'',
        limit = Finite False 20\<rparr>]) \<and>
   top_tracks upstream_ok sample_store (sample_request None (sample_session 1)) =
     (Json 200 (Data ''{}''),
      [\<lparr>url = ''https://api.spotify.com/v1/me/top/tracks'',
        authorization = ''Bearer access-1'', time_range = Some ''medium_term'',
        limit = Finite False 20\<rparr>])"
proof -
  let ?req = "sample_request None (sample_session 1)"
  have tr: "timeRangeSchema_parse (js_or None (QStr ''medium_term'')) = Inr ''medium_term''"
    by (simp add: js_or_def truthy_qval_def timeRangeSchema_parse_def)
  have 1: "map_option tokenExpiry (getUser sample_store 1) = Some 1700003600"
    by (simp only: getUser_sample_store option.map sample_user_fields)
  have 2: "auth_me sample_store 1800000000000 ?req =
             Json 401 (NotAuthenticated (Some ''token_expired''))"
    by (simp add: auth_me_def sample_session_userId getUser_sample_store sample_user_fields
        del: One_nat_def)
  have 3: "recently_played upstream_ok sample_store ?req =
     (Json 200 (Data ''{}''),
      [\<lparr>url = ''https://api.spotify.com/v1/me/player/recently-played'',
        authorization = ''Bearer access-1'', time_range = None,
        limit = Finite False 20\<rparr>])"
    by (simp add: recently_played_def recently_played_try_def sample_session_userId
        getUser_sample_store sample_user_fields sample_request_query default_limit
        upstream_ok_def catch_server_error_def SPOTIFY_API_BASE_def del: One_nat_def)
  have 4: "top_artists upstream_ok sample_store ?req =
     (Json 200 (Data ''{}''),
      [\<lparr>url = ''https://api.spotify.com/v1/me/top/artists'',
        authorization = ''Bearer access-1'', time_range = Some ''medium_term'',
        limit = Finite False 20\<rparr>])"
    by (simp add: top_artists_def top_artists_try_def sample_session_userId
        getUser_sample_store sample_user_fields sample_request_query default_limit tr
        upstream_ok_def catch_server_error_def SPOTIFY_API_BASE_def del: One_nat_def)
  have 5: "top_tracks upstream_ok sample_store ?req =
     (Json 200 (Data ''{}''),
      [\<lparr>url = ''https://api.spotify.com/v1/me/top/tracks'',
        authorization = ''Bearer access-1'', time_range = Some ''medium_term'',
        limit = Finite False 20\<rparr>])"
    by (simp add: top_tracks_def top_tracks_try_def sample_session_userId
        getUser_sample_store sample_user_fields sample_request_query default_limit tr
        upstream_ok_def catch_server_error_def SPOTIFY_API_BASE_def del: One_nat_def)
  show ?thesis using 1 2 3 4 5 by simp
qed

text \<open>
  \<^bold>\<open>C1, amended.\<close> For every request to any of the three proxy endpoints whose session is
  bound to a stored user, the handler makes no expiry check: its response and its
  upstream requests are the same whatever token expiry the stored record holds, in the
  past or not. So with an expired token as with any other, when the time range is accepted
  (always on recently-played; omitted, empty or one of the three names on top-artists and
  top-tracks) and \<^verbatim>\<open>parseInt(limit, 10)\<close> does not throw, the handler issues exactly one
  upstream request, to the endpoint's upstream URL with the stored access token, and
  answers 200 with the upstream body, or 500 \<^verbatim>\<open>Server error\<close> when that request fails.
\<close>

theorem proxy_ignores_token_expiry:
  assumes "authenticated_userId req = Some uid" and "getUser st uid = Some u"
  shows "proxy e ax (st\<lparr>users := (users st)(uid \<mapsto> u\<lparr>tokenExpiry := x\<rparr>)\<rparr>) req =
           proxy e ax st req \<and>
         ((e = RecentlyPlayed \<or>
           query req ''time_range'' \<in>
             {None, Some (QStr []), Some (QStr ''short_term''), Some (QStr ''medium_term''),
              Some (QStr ''long_term'')}) \<and>
          parseInt_qval (js_or (query req ''limit'') (QStr ''20'')) = Inr n \<longrightarrow>
          (\<exists>call. url call = SPOTIFY_API_BASE @
                       (case e of TopArtists \<Rightarrow> ''/me/top/artists''
                        | TopTracks \<Rightarrow> ''/me/top/tracks''
                        | RecentlyPlayed \<Rightarrow> ''/me/player/recently-played'') \<and>
             authorization call = ''Bearer '' @ accessToken u \<and>
             limit call = n \<and>
             proxy e ax st req =
               (case ax call of
                  Inl err \<Rightarrow> Json 500 (Message ''Server error'')
                | Inr d \<Rightarrow> Json 200 (Data d),
                [call])))"
proof (intro conjI impI)
  show "proxy e ax (st\<lparr>users := (users st)(uid \<mapsto> u\<lparr>tokenExpiry := x\<rparr>)\<rparr>) req =
        proxy e ax st req"
    using assms(2) by (rule proxy_store_tokenExpiry)
  assume a: "(e = RecentlyPlayed \<or>
           query req ''time_range'' \<in>
             {None, Some (QStr []), Some (QStr ''short_term''), Some (QStr ''medium_term''),
              Some (QStr ''long_term'')}) \<and>
          parseInt_qval (js_or (query req ''limit'') (QStr ''20'')) = Inr n"
  then obtain tr where acc: "e = RecentlyPlayed \<or>
      timeRangeSchema_parse (js_or (query req ''time_range'') (QStr ''medium_term'')) = Inr tr"
    using accepted_time_range[of req] by blast
  from a have lim: "parseInt_qval (js_or (query req ''limit'') (QStr ''20'')) = Inr n" by simp
  let ?call = "\<lparr>url = SPOTIFY_API_BASE @
                       (case e of TopArtists \<Rightarrow> ''/me/top/artists''
                        | TopTracks \<Rightarrow> ''/me/top/tracks''
                        | RecentlyPlayed \<Rightarrow> ''/me/player/recently-played''),
                 authorization = ''Bearer '' @ accessToken u,
                 time_range = (if e = RecentlyPlayed then None else Some tr),
                 limit = n\<rparr>"
  from proxy_call[OF acc assms lim refl, of ax]
  show "\<exists>call. url call = SPOTIFY_API_BASE @
                       (case e of TopArtists \<Rightarrow> ''/me/top/artists''
                        | TopTracks \<Rightarrow> ''/me/top/tracks''
                        | RecentlyPlayed \<Rightarrow> ''/me/player/recently-played'') \<and>
             authorization call = ''Bearer '' @ accessToken u \<and>
             limit call = n \<and>
             proxy e ax st req =
               (case ax call of
                  Inl err \<Rightarrow> Json 500 (Message ''Server error'')
                | Inr d \<Rightarrow> Json 200 (Data d),
                [call])"
    by (intro exI[of _ ?call]) simp
qed

theorem proxy_ignores_token_expiry_witness:
  "authenticated_userId (sample_request None (sample_session 1)) = Some 1 \<and>
   map_option tokenExpiry (getUser sample_store 1) = Some 1700003600 \<and>
   proxy TopArtists upstream_down
     (sample_store\<lparr>users := (users sample_store)
        (1 \<mapsto> (InsertUser.extend (sample_draft ''alice'') (User.fields 1))
                \<lparr>tokenExpiry := 1900000000\<rparr>)\<rparr>)
     (sample_request None (sample_session 1)) =
   proxy TopArtists upstream_down sample_store (sample_request None (sample_session 1)) \<and>
   (\<exists>call. url call = ''https://api.spotify.com/v1/me/top/artists'' \<and>
      authorization call = ''Bearer access-1'' \<and>
      limit call = Finite False 20 \<and>
      proxy TopArtists upstream_down sample_store (sample_request None (sample_session 1)) =
        (Json 500 (Message ''Server error''), [call]))"
proof -
  have g: "map_option tokenExpiry (getUser sample_store 1) = Some 1700003600"
    by (simp only: getUser_sample_store option.map sample_user_fields)
  have lim: "parseInt_qval (js_or (query (sample_request None (sample_session 1)) ''limit'')
               (QStr ''20'')) = Inr (Finite False 20)"
    by (simp only: sample_request_query default_limit)
  from proxy_ignores_token_expiry[OF sample_session_userId getUser_sample_store,
      of TopArtists upstream_down 1900000000 None "Finite False 20"]
  show ?thesis using g sample_session_userId[of None] lim
    unfolding sample_request_query sample_user_fields
    by (auto simp: upstream_down_def SPOTIFY_API_BASE_def)
qed

text \<open>
  \<^bold>\<open>C2, as stated, fails.\<close> A session without the \<^verbatim>\<open>authenticated\<close> flag and a
  \<^verbatim>\<open>time_range\<close> outside the three names: the top-artists handler validates the time
  range before it looks at the session, and answers 500, not 401.
\<close>

theorem proxy_unauthenticated_invalid_time_range_counterexample:
  "authenticated anonymous_session = None \<and>
   top_artists upstream_ok sample_store
     (sample_request (Some (QStr ''last_week'')) anonymous_session) =
     (Json 500 (Message ''Server error''), [])"
  by (simp add: anonymous_session_def top_artists_def top_artists_try_def sample_request_def
      js_or_def truthy_qval_def timeRangeSchema_parse_def catch_server_error_def Let_def)

text \<open>
  \<^bold>\<open>C2, amended.\<close> For every request to any of the three proxy endpoints whose session
  lacks the authenticated flag or the user id (the session guard fires), the handler
  makes no upstream call, whatever the query parameters; it answers 401 \<^verbatim>\<open>Unauthorized\<close>
  on recently-played, and on top-artists and top-tracks when \<^verbatim>\<open>time_range\<close> is omitted,
  empty or one of the three names, and it answers 500 \<^verbatim>\<open>Server error\<close> on top-artists and
  top-tracks for any other \<^verbatim>\<open>time_range\<close>.
\<close>

theorem proxy_without_authenticated_session:
  assumes "authenticated_userId req = None"
  shows "snd (proxy e ax st req) = [] \<and>
         fst (proxy e ax st req) =
           (if e = RecentlyPlayed \<or>
               query req ''time_range'' \<in>
                 {None, Some (QStr []), Some (QStr ''short_term''), Some (QStr ''medium_term''),
                  Some (QStr ''long_term'')}
            then Json 401 (Message ''Unauthorized'')
            else Json 500 (Message ''Server error''))"
proof (cases "e = RecentlyPlayed \<or>
               query req ''time_range'' \<in>
                 {None, Some (QStr []), Some (QStr ''short_term''), Some (QStr ''medium_term''),
                  Some (QStr ''long_term'')}")
  case True
  then obtain tr where "e = RecentlyPlayed \<or>
      timeRangeSchema_parse (js_or (query req ''time_range'') (QStr ''medium_term'')) = Inr tr"
    using accepted_time_range[of req] by blast
  from proxy_unauthenticated[OF this assms, of ax st] show ?thesis using True by simp
next
  case False
  then have "e \<noteq> RecentlyPlayed"
    and "timeRangeSchema_parse (js_or (query req ''time_range'') (QStr ''medium_term'')) =
           Inl ZodError"
    using rejected_time_range[of req] by blast+
  from proxy_rejected[OF this, of ax st] show ?thesis using False by simp
qed

theorem proxy_without_authenticated_session_witness:
  "authenticated_userId (sample_request None anonymous_session) = None \<and>
   proxy RecentlyPlayed upstream_ok sample_store (sample_request None anonymous_session) =
     (Json 401 (Message ''Unauthorized''), []) \<and>
   proxy TopTracks upstream_ok sample_store
     (sample_request (Some (QStr ''last_week'')) anonymous_session) =
     (Json 500 (Message ''Server error''), [])"
proof -
  from proxy_without_authenticated_session[OF anonymous_session_userId,
         of RecentlyPlayed upstream_ok sample_store None]
       proxy_without_authenticated_session[OF anonymous_session_userId,
         of TopTracks upstream_ok sample_store "Some (QStr ''last_week'')"]
  show ?thesis unfolding sample_request_query using anonymous_session_userId[of None]
    by (simp add: prod_eq_iff)
qed

text \<open>
  \<^bold>\<open>C3, as stated, fails.\<close> An authenticated request to top-artists with the time range
  \<^verbatim>\<open>last_week\<close> gets the response 500 \<^verbatim>\<open>Server error\<close>, the very response a valid request
  gets when the upstream call fails: the validation error is not a category of its own.
\<close>

theorem invalid_time_range_generic_500_counterexample:
  "fst (top_artists upstream_ok sample_store
          (sample_request (Some (QStr ''last_week'')) (sample_session 1))) =
     Json 500 (Message ''Server error'') \<and>
   fst (top_artists upstream_down sample_store
          (sample_request (Some (QStr ''short_term'')) (sample_session 1))) =
     Json 500 (Message ''Server error'')"
proof -
  have bad: "timeRangeSchema_parse (js_or (Some (QStr ''last_week'')) (QStr ''medium_term'')) =
               Inl ZodError"
    by (simp add: js_or_def truthy_qval_def timeRangeSchema_parse_def)
  have good: "timeRangeSchema_parse (js_or (Some (QStr ''short_term'')) (QStr ''medium_term'')) =
                Inr ''short_term''"
    by (simp add: js_or_def truthy_qval_def timeRangeSchema_parse_def)
  have 1: "fst (top_artists upstream_ok sample_store
          (sample_request (Some (QStr ''last_week'')) (sample_session 1))) =
     Json 500 (Message ''Server error'')"
    by (simp add: top_artists_def top_artists_try_def sample_request_query bad
        catch_server_error_def)
  have 2: "fst (top_artists upstream_down sample_store
          (sample_request (Some (QStr ''short_term'')) (sample_session 1))) =
     Json 500 (Message ''Server error'')"
    by (simp add: top_artists_def top_artists_try_def sample_request_query good
        default_limit sample_session_userId getUser_sample_store upstream_down_def
        catch_server_error_def del: One_nat_def)
  show ?thesis using 1 2 by simp
qed

text \<open>
  \<^bold>\<open>C3, amended.\<close> For every request to top-artists or top-tracks whose \<^verbatim>\<open>time_range\<close> is
  present, not empty and outside the three names, the validation throws a \<^verbatim>\<open>ZodError\<close>
  before the session is read and before any upstream call, and the handler's \<^verbatim>\<open>catch\<close>
  block answers it with 500 \<^verbatim>\<open>Server error\<close>, the response it gives to every error,
  upstream failures included.
\<close>

theorem invalid_time_range_server_error:
  assumes "e = TopArtists \<or> e = TopTracks"
    and "query req ''time_range'' = Some v"
    and "v \<notin> {QStr [], QStr ''short_term'', QStr ''medium_term'', QStr ''long_term''}"
  shows "proxy_try e ax st req = (Inl ZodError, []) \<and>
         proxy e ax st req = (Json 500 (Message ''Server error''), []) \<and>
         (\<forall>err. catch_server_error (Inl err) = Json 500 (Message ''Server error''))"
proof -
  have e: "e \<noteq> RecentlyPlayed" using assms(1) by auto
  note zod = requested_invalid[OF assms(2,3)]
  show ?thesis
    using proxy_try_rejected[OF e zod, of ax st] proxy_rejected[OF e zod, of ax st]
    by (simp add: catch_server_error_def)
qed

theorem invalid_time_range_server_error_witness:
  "query (sample_request (Some (QStr ''last_week'')) (sample_session 1)) ''time_range'' =
     Some (QStr ''last_week'') \<and>
   proxy_try TopTracks upstream_ok sample_store
     (sample_request (Some (QStr ''last_week'')) (sample_session 1)) = (Inl ZodError, []) \<and>
   proxy TopTracks upstream_ok sample_store
     (sample_request (Some (QStr ''last_week'')) (sample_session 1)) =
     (Json 500 (Message ''Server error''), [])"
proof -
  have q: "query (sample_request (Some (QStr ''last_week'')) (sample_session 1)) ''time_range'' =
             Some (QStr ''last_week'')"
    by (simp add: sample_request_def)
  have v: "QStr ''last_week'' \<notin>
             {QStr [], QStr ''short_term'', QStr ''medium_term'', QStr ''long_term''}"
    by simp
  have e: "TopTracks = TopArtists \<or> TopTracks = TopTracks" by simp
  from invalid_time_range_server_error[OF e q v, of upstream_ok sample_store]
  show ?thesis using q by simp
qed

text \<open>
  \<^bold>\<open>C8, as stated, fails.\<close> The request \<^verbatim>\<open>?time_range=\<close> carries the empty string, a
  value outside the three names; \<^verbatim>\<open>req.query.time_range || "medium_term"\<close> replaces it by
  the default instead of rejecting it, and the upstream call is made.
\<close>

theorem empty_time_range_not_rejected_counterexample:
  "query (sample_request (Some (QStr [])) (sample_session 1)) ''time_range'' = Some (QStr []) \<and>
   [] \<notin> {''short_term'', ''medium_term'', ''long_term''} \<and>
   top_artists upstream_ok sample_store (sample_request (Some (QStr [])) (sample_session 1)) =
     (Json 200 (Data ''{}''),
      [\<lparr>url = ''https://api.spotify.com/v1/me/top/artists'',
        authorization = ''Bearer access-1'', time_range = Some ''medium_term'',
        limit = Finite False 20\<rparr>])"
proof -
  let ?req = "sample_request (Some (QStr [])) (sample_session 1)"
  have tr: "timeRangeSchema_parse (js_or (Some (QStr [])) (QStr ''medium_term'')) =
              Inr ''medium_term''"
    by (simp add: js_or_def truthy_qval_def timeRangeSchema_parse_def)
  have "top_artists upstream_ok sample_store ?req =
     (Json 200 (Data ''{}''),
      [\<lparr>url = ''https://api.spotify.com/v1/me/top/artists'',
        authorization = ''Bearer access-1'', time_range = Some ''medium_term'',
        limit = Finite False 20\<rparr>])"
    by (simp add: top_artists_def top_artists_try_def sample_session_userId
        getUser_sample_store sample_user_fields sample_request_query default_limit tr
        upstream_ok_def catch_server_error_def SPOTIFY_API_BASE_def del: One_nat_def)
  then show ?thesis by (simp add: sample_request_query)
qed

text \<open>
  \<^bold>\<open>C8, amended.\<close> For the top-artists and top-tracks endpoints, the \<^verbatim>\<open>time_range\<close> of
  every upstream request is one of \<^verbatim>\<open>short_term\<close>, \<^verbatim>\<open>medium_term\<close>, \<^verbatim>\<open>long_term\<close>. An
  omitted or empty \<^verbatim>\<open>time_range\<close> parameter is replaced by \<^verbatim>\<open>medium_term\<close>, and one of the
  three names is forwarded as it is: in both cases no upstream request carries another
  time range, and when the session is bound to a stored user and \<^verbatim>\<open>parseInt(limit, 10)\<close>
  does not throw, exactly one upstream request is issued, to the endpoint's upstream URL,
  with that time range. Any other value is rejected with 500 \<^verbatim>\<open>Server error\<close> without any
  upstream call.
\<close>

theorem forwarded_time_range_valid:
  assumes "e = TopArtists \<or> e = TopTracks"
  shows "(\<forall>call \<in> set (snd (proxy e ax st req)).
            time_range call \<in> {Some ''short_term'', Some ''medium_term'', Some ''long_term''}) \<and>
         (query req ''time_range'' = None \<or> query req ''time_range'' = Some (QStr []) \<longrightarrow>
            (\<forall>call \<in> set (snd (proxy e ax st req)). time_range call = Some ''medium_term'')) \<and>
         (\<forall>s. query req ''time_range'' = Some (QStr s) \<and>
               s \<in> {''short_term'', ''medium_term'', ''long_term''} \<longrightarrow>
            (\<forall>call \<in> set (snd (proxy e ax st req)). time_range call = Some s)) \<and>
         (\<forall>v. query req ''time_range'' = Some v \<and>
               v \<notin> {QStr [], QStr ''short_term'', QStr ''medium_term'', QStr ''long_term''} \<longrightarrow>
            proxy e ax st req = (Json 500 (Message ''Server error''), [])) \<and>
         (\<forall>uid u n.
            authenticated_userId req = Some uid \<and> getUser st uid = Some u \<and>
            parseInt_qval (js_or (query req ''limit'') (QStr ''20'')) = Inr n \<longrightarrow>
            (query req ''time_range'' = None \<or> query req ''time_range'' = Some (QStr []) \<longrightarrow>
               (\<exists>call. snd (proxy e ax st req) = [call] \<and>
                  time_range call = Some ''medium_term'' \<and>
                  url call = SPOTIFY_API_BASE @
                    (if e = TopArtists then ''/me/top/artists'' else ''/me/top/tracks''))) \<and>
            (\<forall>s. query req ''time_range'' = Some (QStr s) \<and>
                  s \<in> {''short_term'', ''medium_term'', ''long_term''} \<longrightarrow>
               (\<exists>call. snd (proxy e ax st req) = [call] \<and>
                  time_range call = Some s \<and>
                  url call = SPOTIFY_API_BASE @
                    (if e = TopArtists then ''/me/top/artists'' else ''/me/top/tracks''))))"
proof -
  have e: "e \<noteq> RecentlyPlayed" using assms by auto
  let ?parse = "timeRangeSchema_parse (js_or (query req ''time_range'') (QStr ''medium_term''))"
  let ?calls = "snd (proxy e ax st req)"
  let ?url = "SPOTIFY_API_BASE @
                (if e = TopArtists then ''/me/top/artists'' else ''/me/top/tracks'')"
  have all: "time_range call \<in> {Some ''short_term'', Some ''medium_term'', Some ''long_term''}"
    if "call \<in> set ?calls" for call
  proof -
    from proxy_calls_time_range[OF assms that] obtain tr
      where tr: "time_range call = Some tr" "?parse = Inr tr" by blast
    from tr(2) have "tr \<in> {''short_term'', ''medium_term'', ''long_term''}"
      by (simp add: timeRangeSchema_parse_Inr_iff)
    then show ?thesis using tr(1) by auto
  qed
  have only: "time_range call = Some tr" if "?parse = Inr tr" "call \<in> set ?calls" for tr call
    using proxy_calls_time_range[OF assms that(2)] that(1) by auto
  have issued: "\<exists>call. ?calls = [call] \<and> time_range call = Some tr \<and> url call = ?url"
    if "?parse = Inr tr" "authenticated_userId req = Some uid" "getUser st uid = Some u"
      "parseInt_qval (js_or (query req ''limit'') (QStr ''20'')) = Inr n" for tr uid u n
  proof -
    let ?call = "\<lparr>url = SPOTIFY_API_BASE @
                       (case e of TopArtists \<Rightarrow> ''/me/top/artists''
                        | TopTracks \<Rightarrow> ''/me/top/tracks''
                        | RecentlyPlayed \<Rightarrow> ''/me/player/recently-played''),
                   authorization = ''Bearer '' @ accessToken u,
                   time_range = (if e = RecentlyPlayed then None else Some tr),
                   limit = n\<rparr>"
    from proxy_call[OF disjI2[OF that(1)] that(2,3,4) refl, of e ax]
    have "?calls = [?call]" by simp
    moreover have "time_range ?call = Some tr" using e by simp
    moreover have "url ?call = ?url" using assms by auto
    ultimately show ?thesis by blast
  qed
  have default: "?parse = Inr ''medium_term''"
    if "query req ''time_range'' = None \<or> query req ''time_range'' = Some (QStr [])"
    using requested_default[OF that] .
  have named: "?parse = Inr s"
    if "query req ''time_range'' = Some (QStr s) \<and>
        s \<in> {''short_term'', ''medium_term'', ''long_term''}" for s
    using that requested_valid[of req s] by blast
  have rejected: "proxy e ax st req = (Json 500 (Message ''Server error''), [])"
    if "query req ''time_range'' = Some v \<and>
        v \<notin> {QStr [], QStr ''short_term'', QStr ''medium_term'', QStr ''long_term''}" for v
  proof -
    from that have "?parse = Inl ZodError" using requested_invalid[of req v] by blast
    from proxy_rejected[OF e this] show ?thesis .
  qed
  show ?thesis
  proof (intro conjI ballI allI impI)
    fix call assume "call \<in> set ?calls"
    then show "time_range call \<in> {Some ''short_term'', Some ''medium_term'', Some ''long_term''}"
      by (rule all)
  next
    fix call
    assume "query req ''time_range'' = None \<or> query req ''time_range'' = Some (QStr [])"
      and "call \<in> set ?calls"
    then show "time_range call = Some ''medium_term''" using only default by blast
  next
    fix s call
    assume "query req ''time_range'' = Some (QStr s) \<and>
            s \<in> {''short_term'', ''medium_term'', ''long_term''}"
      and "call \<in> set ?calls"
    then show "time_range call = Some s" using only named by blast
  next
    fix v
    assume "query req ''time_range'' = Some v \<and>
            v \<notin> {QStr [], QStr ''short_term'', QStr ''medium_term'', QStr ''long_term''}"
    then show "proxy e ax st req = (Json 500 (Message ''Server error''), [])" by (rule rejected)
  next
    fix uid u n
    assume a: "authenticated_userId req = Some uid \<and> getUser st uid = Some u \<and>
               parseInt_qval (js_or (query req ''limit'') (QStr ''20'')) = Inr n"
      and d: "query req ''time_range'' = None \<or> query req ''time_range'' = Some (QStr [])"
    from issued[OF default[OF d], of uid u n] a
    show "\<exists>call. ?calls = [call] \<and> time_range call = Some ''medium_term'' \<and> url call = ?url"
      by blast
  next
    fix uid u n s
    assume a: "authenticated_userId req = Some uid \<and> getUser st uid = Some u \<and>
               parseInt_qval (js_or (query req ''limit'') (QStr ''20'')) = Inr n"
      and d: "query req ''time_range'' = Some (QStr s) \<and>
              s \<in> {''short_term'', ''medium_term'', ''long_term''}"
    from issued[OF named[OF d], of uid u n] a
    show "\<exists>call. ?calls = [call] \<and> time_range call = Some s \<and> url call = ?url"
      by blast
  qed
qed

theorem forwarded_time_range_valid_witness:
  "(\<exists>call. snd (proxy TopArtists upstream_ok sample_store
                   (sample_request None (sample_session 1))) = [call] \<and>
      time_range call = Some ''medium_term'' \<and>
      url call = ''https://api.spotify.com/v1/me/top/artists'') \<and>
   (\<exists>call. snd (proxy TopTracks upstream_ok sample_store
                   (sample_request (Some (QStr ''long_term'')) (sample_session 1))) = [call] \<and>
      time_range call = Some ''long_term'' \<and>
      url call = ''https://api.spotify.com/v1/me/top/tracks'') \<and>
   proxy TopTracks upstream_ok sample_store
     (sample_request (Some (QArr [QStr ''short_term'', QStr ''long_term''])) (sample_session 1)) =
     (Json 500 (Message ''Server error''), [])"
proof -
  let ?none = "sample_request None (sample_session 1)"
  let ?long = "sample_request (Some (QStr ''long_term'')) (sample_session 1)"
  let ?arr = "sample_request (Some (QArr [QStr ''short_term'', QStr ''long_term''])) (sample_session 1)"
  have e: "TopArtists = TopArtists \<or> TopArtists = TopTracks"
    "TopTracks = TopArtists \<or> TopTracks = TopTracks"
    by simp_all
  have lim: "parseInt_qval (js_or (query (sample_request tr (sample_session 1)) ''limit'')
               (QStr ''20'')) = Inr (Finite False 20)" for tr
    by (simp only: sample_request_query default_limit)
  note a = forwarded_time_range_valid[OF e(1), of upstream_ok sample_store ?none]
  note b = forwarded_time_range_valid[OF e(2), of upstream_ok sample_store ?long]
  note c = forwarded_time_range_valid[OF e(2), of upstream_ok sample_store ?arr]
  have 1: "\<exists>call. snd (proxy TopArtists upstream_ok sample_store ?none) = [call] \<and>
      time_range call = Some ''medium_term'' \<and>
      url call = ''https://api.spotify.com/v1/me/top/artists''"
    using a sample_session_userId[of None] getUser_sample_store lim[of None]
    by (simp add: sample_request_query SPOTIFY_API_BASE_def del: One_nat_def)
  have 2: "\<exists>call. snd (proxy TopTracks upstream_ok sample_store ?long) = [call] \<and>
      time_range call = Some ''long_term'' \<and>
      url call = ''https://api.spotify.com/v1/me/top/tracks''"
    using b sample_session_userId[of "Some (QStr ''long_term'')"] getUser_sample_store
      lim[of "Some (QStr ''long_term'')"]
    by (simp add: sample_request_query SPOTIFY_API_BASE_def del: One_nat_def)
  have 3: "proxy TopTracks upstream_ok sample_store ?arr = (Json 500 (Message ''Server error''), [])"
    using c by (simp add: sample_request_query)
  show ?thesis using 1 2 3 by simp
qed

end
